theory Spec2Isabelle
  imports Main "HOL-Library.Sublist" "HOL-Library.AList"
begin

section \<open>Strings\<close>

text \<open>
  A Python \<open>str\<close> is modelled as a \<^typ>\<open>string\<close> whose characters are the code points
  below 256. On that range the functions below are exactly Python's: \<open>str.lower\<close> shifts
  \<open>A-Z\<close> and the Latin-1 capitals \<open>U+00C0 .. U+00DE\<close> (the multiplication sign \<open>U+00D7\<close>
  apart) by 32, and the class \<open>\s\<close> of the module \<open>re\<close> holds the code points
  9-13, 28-32, 133 and 160.
\<close>

definition lower_char :: "char \<Rightarrow> char" where
  "lower_char c =
     (let n = (of_char c :: nat)
      in if (65 \<le> n \<and> n \<le> 90) \<or> (192 \<le> n \<and> n \<le> 222 \<and> n \<noteq> 215)
         then char_of (n + 32) else c)"

definition lower :: "string \<Rightarrow> string" where
  "lower s = map lower_char s"

definition isspace :: "char \<Rightarrow> bool" where
  "isspace c =
     (let n = (of_char c :: nat)
      in (9 \<le> n \<and> n \<le> 13) \<or> (28 \<le> n \<and> n \<le> 32) \<or> n = 133 \<or> n = 160)"

text \<open>\<open>s.startswith(p)\<close> and \<open>sub in s\<close>.\<close>

definition startswith :: "string \<Rightarrow> string \<Rightarrow> bool" where
  "startswith s p = prefix p s"

definition contains :: "string \<Rightarrow> string \<Rightarrow> bool" where
  "contains sub s = sublist sub s"

text \<open>\<open>str(n)\<close> for an integer: its decimal digits, with a sign when negative.\<close>

definition digit :: "nat \<Rightarrow> char" where
  "digit n = ''0123456789abcdef'' ! n"

function str_digits :: "int \<Rightarrow> string" where
  "str_digits i =
     (if i < 10 then [digit (nat i)] else str_digits (i div 10) @ [digit (nat (i mod 10))])"
  by pat_completeness auto
termination
  by (relation "measure nat") auto

declare str_digits.simps [simp del]

definition str_int :: "int \<Rightarrow> string" where
  "str_int i = (if i < 0 then CHR ''-'' # str_digits (- i) else str_digits i)"

section \<open>The regular expressions of the client\<close>

text \<open>
  Every pattern the client hands to \<open>re.search\<close> is a sequence of items, each either one
  character of a class or a starred class. The classes are a literal character, \<open>\s\<close> and
  \<open>[^><]\<close>. \<open>re.search\<close> is used as a truth value only, so the model answers whether some
  substring matches; the order in which the backtracking matcher of Python tries the
  alternatives does not change that answer.
\<close>

datatype cls = Ch char | Ws | NotAngle

fun in_cls :: "cls \<Rightarrow> char \<Rightarrow> bool" where
  "in_cls (Ch c) x = (x = c)"
| "in_cls Ws x = isspace x"
| "in_cls NotAngle x = (x \<noteq> CHR ''>'' \<and> x \<noteq> CHR ''<'')"

datatype item = One cls | Many cls

type_synonym pattern = "item list"

definition lit :: "string \<Rightarrow> pattern" where
  "lit s = map (\<lambda>c. One (Ch c)) s"

text \<open>\<open>match_here p s\<close>: some prefix of \<open>s\<close> matches the whole pattern \<open>p\<close>.\<close>

fun match_here :: "pattern \<Rightarrow> string \<Rightarrow> bool" where
  "match_here [] s = True"
| "match_here (One k # p) [] = False"
| "match_here (One k # p) (x # xs) = (if in_cls k x then match_here p xs else False)"
| "match_here (Many k # p) [] = match_here p []"
| "match_here (Many k # p) (x # xs) =
     (if in_cls k x then (if match_here (Many k # p) xs then True else match_here p (x # xs))
      else match_here p (x # xs))"

text \<open>\<open>re.search(p, s)\<close> as a truth value: the pattern matches at some position of \<open>s\<close>.\<close>

fun re_search :: "pattern \<Rightarrow> string \<Rightarrow> bool" where
  "re_search p [] = match_here p []"
| "re_search p (x # xs) = (if match_here p (x # xs) then True else re_search p xs)"

text \<open>What a pattern denotes, for reference: the strings that match it as a whole. A
  starred class stands for any run of characters of the class.\<close>

fun denotes :: "pattern \<Rightarrow> string \<Rightarrow> bool" where
  "denotes [] s = (s = [])"
| "denotes (One k # p) s = (\<exists>x xs. s = x # xs \<and> in_cls k x \<and> denotes p xs)"
| "denotes (Many k # p) s = (\<exists>ys zs. s = ys @ zs \<and> list_all (in_cls k) ys \<and> denotes p zs)"

text \<open>The opening and the closing tag shared by all six patterns:
  \<^verbatim>\<open><\s*title\s*>\<close> and \<^verbatim>\<open><\s*/\s*title\s*>\<close>.\<close>

definition title_open :: pattern where
  "title_open = lit ''<'' @ [Many Ws] @ lit ''title'' @ [Many Ws] @ lit ''>''"

definition title_close :: pattern where
  "title_close = lit ''<'' @ [Many Ws] @ lit ''/'' @ [Many Ws] @ lit ''title'' @ [Many Ws] @ lit ''>''"

text \<open>\<^verbatim>\<open><\s*title\s*>\s*access denied\s[^><]*cloudflare[^><]*<\s*/\s*title\s*>\<close>\<close>

definition re_access_denied :: pattern where
  "re_access_denied =
     title_open @ [Many Ws] @ lit ''access denied'' @ [One Ws, Many NotAngle]
       @ lit ''cloudflare'' @ [Many NotAngle] @ title_close"

text \<open>\<^verbatim>\<open><\s*title\s*>\s*ip banned[^><]*<\s*/\s*title\s*>\<close>\<close>

definition re_ip_banned :: pattern where
  "re_ip_banned = title_open @ [Many Ws] @ lit ''ip banned'' @ [Many NotAngle] @ title_close"

text \<open>\<^verbatim>\<open><\s*title\s*>[^><]*just a moment\.\.\.[^><]*<\s*/\s*title\s*>\<close>\<close>

definition re_just_a_moment :: pattern where
  "re_just_a_moment =
     title_open @ [Many NotAngle] @ lit ''just a moment...'' @ [Many NotAngle] @ title_close"

text \<open>\<^verbatim>\<open><\s*title\s*>[^><]*attention required\s*![^><]*<\s*/\s*title\s*>\<close>\<close>

definition re_attention_required :: pattern where
  "re_attention_required =
     title_open @ [Many NotAngle] @ lit ''attention required'' @ [Many Ws] @ lit ''!''
       @ [Many NotAngle] @ title_close"

text \<open>\<^verbatim>\<open><\s*title\s*>[^><]*captcha challenge[^><]*<\s*/\s*title\s*>\<close>\<close>

definition re_captcha_challenge :: pattern where
  "re_captcha_challenge =
     title_open @ [Many NotAngle] @ lit ''captcha challenge'' @ [Many NotAngle] @ title_close"

text \<open>\<^verbatim>\<open><\s*title\s*>[^><]*ddos-guard[^><]*<\s*/\s*title\s*>\<close>\<close>

definition re_ddos_guard :: pattern where
  "re_ddos_guard =
     title_open @ [Many NotAngle] @ lit ''ddos-guard'' @ [Many NotAngle] @ title_close"

section \<open>JSON values and \<open>json.dumps\<close>\<close>

text \<open>
  The values the client serialises: \<open>None\<close>, booleans, integers, strings, lists and
  dictionaries in insertion order.
\<close>

datatype json =
    JNull
  | JBool bool
  | JNum int
  | JStr string
  | JArr "json list"
  | JObj "(string \<times> json) list"

text \<open>\<open>sep.join(xs)\<close>\<close>

fun join :: "string \<Rightarrow> string list \<Rightarrow> string" where
  "join sep [] = []"
| "join sep [x] = x"
| "join sep (x # y # ys) = x @ sep @ join sep (y # ys)"

text \<open>
  \<open>json.dumps\<close> with its defaults (\<open>ensure_ascii=True\<close>, separators \<open>', '\<close> and \<open>': '\<close>):
  inside a string the quote, the backslash and the five named control characters are
  escaped with a backslash, every other character outside \<open>' ' .. '~'\<close> as \<open>\u\<close> and
  four hexadecimal digits.
\<close>

definition hex4 :: "nat \<Rightarrow> string" where
  "hex4 n = [digit (n div 4096 mod 16), digit (n div 256 mod 16), digit (n div 16 mod 16), digit (n mod 16)]"

definition escape_char :: "char \<Rightarrow> string" where
  "escape_char c =
     (let n = (of_char c :: nat)
      in if n = 34 then [CHR 0x5C, CHR 0x22]
         else if n = 92 then [CHR 0x5C, CHR 0x5C]
         else if n = 8 then [CHR 0x5C, CHR ''b'']
         else if n = 12 then [CHR 0x5C, CHR ''f'']
         else if n = 10 then [CHR 0x5C, CHR ''n'']
         else if n = 13 then [CHR 0x5C, CHR ''r'']
         else if n = 9 then [CHR 0x5C, CHR ''t'']
         else if 32 \<le> n \<and> n \<le> 126 then [c]
         else [CHR 0x5C, CHR ''u''] @ hex4 n)"

definition dumps_str :: "string \<Rightarrow> string" where
  "dumps_str s = [CHR 0x22] @ concat (map escape_char s) @ [CHR 0x22]"

fun json_dumps :: "json \<Rightarrow> string" where
  "json_dumps JNull = ''null''"
| "json_dumps (JBool b) = (if b then ''true'' else ''false'')"
| "json_dumps (JNum i) = str_int i"
| "json_dumps (JStr s) = dumps_str s"
| "json_dumps (JArr xs) = ''['' @ join '', '' (map json_dumps xs) @ '']''"
| "json_dumps (JObj kvs) =
     ''{'' @ join '', '' (map (\<lambda>kv. dumps_str (fst kv) @ '': '' @ json_dumps (snd kv)) kvs) @ ''}''"

section \<open>Cookies and the cookie jar\<close>

text \<open>
  The attributes of a \<open>http.cookiejar.Cookie\<close> that the client reads. The value, the port
  and the expiry may be \<open>None\<close>.
\<close>

record cookie =
  ck_name :: string
  ck_value :: "string option"
  ck_domain :: string
  ck_path :: string
  ck_port :: "string option"
  ck_secure :: bool
  ck_expires :: "int option"

text \<open>
  The jar of \<open>httpx.Cookies\<close> is a \<open>http.cookiejar.CookieJar\<close>: a dictionary from domain to
  a dictionary from path to a dictionary from name to cookie. Dictionaries keep insertion
  order, so each level is an association list; storing under a key that is present
  replaces the entry where it stands and a new key goes to the end.
\<close>

type_synonym jar = "(string \<times> (string \<times> (string \<times> cookie) list) list) list"

text \<open>Iterating over the jar visits the cookies depth-first, in dictionary order.\<close>

definition jar_iter :: "jar \<Rightarrow> cookie list" where
  "jar_iter j = concat (map (\<lambda>d. concat (map (\<lambda>p. map snd (snd p)) (snd d))) j)"

definition jar_lookup :: "jar \<Rightarrow> string \<times> string \<times> string \<Rightarrow> cookie option" where
  "jar_lookup j k =
     (case k of (nm, dm, pt) \<Rightarrow>
        (case map_of j dm of None \<Rightarrow> None
         | Some c2 \<Rightarrow> (case map_of c2 pt of None \<Rightarrow> None | Some c3 \<Rightarrow> map_of c3 nm)))"

text \<open>\<open>CookieJar.set_cookie\<close>\<close>

definition set_cookie :: "cookie \<Rightarrow> jar \<Rightarrow> jar" where
  "set_cookie ck j =
     (let c2 = (case map_of j (ck_domain ck) of None \<Rightarrow> [] | Some d \<Rightarrow> d);
          c3 = (case map_of c2 (ck_path ck) of None \<Rightarrow> [] | Some p \<Rightarrow> p)
      in AList.update (ck_domain ck)
           (AList.update (ck_path ck) (AList.update (ck_name ck) ck c3) c2) j)"

text \<open>\<open>httpx.Cookies.set(name, value, domain, path)\<close> builds a cookie without port and
  expiry, not secure, and stores it.\<close>

definition cookies_set :: "string \<Rightarrow> string \<Rightarrow> string \<Rightarrow> string \<Rightarrow> jar \<Rightarrow> jar" where
  "cookies_set nm v dm pt j =
     set_cookie \<lparr>ck_name = nm, ck_value = Some v, ck_domain = dm, ck_path = pt,
                 ck_port = None, ck_secure = False, ck_expires = None\<rparr> j"

section \<open>Errors, responses and the client\<close>

text \<open>
  The client defines two exception classes: \<open>AsyncClient.Exception\<close> and its subclass
  \<open>AsyncClient.CloudFlareBlocked\<close>; both carry a message. The conditions the
  specification calls \<open>ChallengeRetriesExceeded\<close>, \<open>SolverUnavailable\<close> and
  \<open>SolverProtocolError\<close> are all raised as \<open>AsyncClient.Exception\<close> and differ by their
  message. \<open>KeyError\<close> is raised by a subscript on a dictionary that lacks the key,
  \<open>JSONDecodeError\<close> by \<open>solver_response.json()\<close> on a body that is not JSON, and
  \<open>TransportError\<close> stands for whatever the HTTP library raises; the client catches none
  of them.
\<close>

datatype error =
    AsyncClient_Exception string
  | CloudFlareBlocked string
  | KeyError string
  | JSONDecodeError
  | TransportError string

text \<open>What the client reads of a \<open>httpx.Response\<close>: the status, the \<open>content-type\<close>
  header (\<open>None\<close> when the response has none) and the body as text.\<close>

record response =
  r_status_code :: int
  r_content_type :: "string option"
  r_text :: string

text \<open>\<open>response.headers.get('content-type', '')\<close>\<close>

definition content_type :: "response \<Rightarrow> string" where
  "content_type r = (case r_content_type r of None \<Rightarrow> [] | Some v \<Rightarrow> v)"

text \<open>
  The JSON body of the solver's answer. The members the client subscripts
  (\<open>c['name']\<close>, \<open>c['value']\<close>, \<open>['userAgent']\<close>, \<open>['cookies']\<close>) and the ones it reads with
  a default (\<open>c.get('domain', "")\<close>, \<open>c.get('path', '/')\<close>) or tests for
  (\<open>"solution" in response_json\<close>) are optional fields: \<open>None\<close> is a missing key. The
  values are typed as the client uses them (\<open>typing.List[dict]\<close> for the cookies, strings
  elsewhere). \<open>other_members\<close> holds the members of the body besides \<open>solution\<close>.
\<close>

record solver_cookie =
  sc_name :: "string option"
  sc_value :: "string option"
  sc_domain :: "string option"
  sc_path :: "string option"

record solution =
  userAgent :: "string option"
  sol_cookies :: "solver_cookie list option"

record response_json =
  solution :: "solution option"
  other_members :: "(string \<times> json) list"

text \<open>\<open>sr_json\<close> is the result of \<open>solver_response.json()\<close>, \<open>None\<close> when that raises.\<close>

record solver_response =
  sr_status_code :: int
  sr_json :: "response_json option"

text \<open>
  The fields of an \<open>AsyncClient\<close> that its methods read or write: \<open>_solver_url\<close>,
  \<open>_kwargs.get('proxy', None)\<close>, \<open>_user_agent\<close> and the jar of \<open>_http_client.cookies\<close>.
\<close>

record client =
  solver_url :: string
  proxy :: "string option"
  user_agent :: string
  cookies :: jar

definition default_user_agent :: string where
  "default_user_agent =
     ''Mozilla/5.0 (X11; Linux x86_64) AppleWebKit/537.36 (KHTML, like Gecko) Chrome/131.0.0.0 Safari/537.36''"

definition max_tries :: nat where
  "max_tries = 2"

text \<open>A client as \<open>__init__\<close> and \<open>__aenter__\<close> leave it: the class default for the
  user-agent and a fresh HTTP client, whose jar is empty.\<close>

definition new_client :: "string \<Rightarrow> string option \<Rightarrow> client" where
  "new_client url px =
     \<lparr>solver_url = url, proxy = px, user_agent = default_user_agent, cookies = []\<rparr>"

section \<open>The environment\<close>

text \<open>
  The two HTTP calls leave the program. Each is a function of a state of the outside world
  \<open>'w\<close>, which it may change. \<open>run_method\<close> (\<open>httpx.AsyncClient.get\<close> or \<open>post\<close> on the
  client's own HTTP client) takes the URL, the headers and the jar, and returns the
  response or the exception raised, with the jar as the HTTP client left it.
  \<open>solver_post\<close> (\<open>post\<close> on a fresh HTTP client) takes the endpoint and the JSON payload.
  Every call is recorded as an event, with what was sent and what came back.
\<close>

type_synonym headers = "string \<rightharpoonup> string"

type_synonym 'w run_method =
  "'w \<Rightarrow> string \<Rightarrow> headers \<Rightarrow> jar \<Rightarrow> (error + response) \<times> jar \<times> 'w"

type_synonym 'w solver_post =
  "'w \<Rightarrow> string \<Rightarrow> json \<Rightarrow> (error + solver_response) \<times> 'w"

datatype event =
    Transport string headers jar "error + response" jar
  | Solver string json "error + solver_response"

section \<open>\<open>AsyncClient._solve_challenge\<close>\<close>

definition cookie_json :: "cookie \<Rightarrow> json" where
  "cookie_json c =
     JObj [(''name'', JStr (ck_name c)),
           (''value'', case ck_value c of None \<Rightarrow> JNull | Some v \<Rightarrow> JStr v),
           (''domain'', JStr (ck_domain c)),
           (''path'', JStr (ck_path c)),
           (''port'', case ck_port c of None \<Rightarrow> JNull | Some p \<Rightarrow> JStr p),
           (''secure'', JBool (ck_secure c)),
           (''expires'', case ck_expires c of None \<Rightarrow> JNull | Some e \<Rightarrow> JNum e)]"

definition solver_request :: "string \<Rightarrow> client \<Rightarrow> json" where
  "solver_request url c =
     JObj [(''maxTimeout'', JNum 60000),
           (''url'', JStr url),
           (''cookies'', JArr (map cookie_json (jar_iter (cookies c)))),
           (''proxy'', case proxy c of None \<Rightarrow> JNull | Some p \<Rightarrow> JStr p)]"

text \<open>The loop over \<open>solver_cookies\<close>. The keyword arguments are evaluated in order, so a
  cookie without name raises before its value is looked at; the cookies stored before
  the exception stay in the jar.\<close>

fun set_solver_cookies :: "solver_cookie list \<Rightarrow> jar \<Rightarrow> (error + unit) \<times> jar" where
  "set_solver_cookies [] j = (Inr (), j)"
| "set_solver_cookies (c # cs) j =
     (case sc_name c of
        None \<Rightarrow> (Inl (KeyError ''name''), j)
      | Some nm \<Rightarrow>
          (case sc_value c of
             None \<Rightarrow> (Inl (KeyError ''value''), j)
           | Some v \<Rightarrow>
               set_solver_cookies cs
                 (cookies_set nm v
                    (case sc_domain c of None \<Rightarrow> [] | Some d \<Rightarrow> d)
                    (case sc_path c of None \<Rightarrow> ''/'' | Some p \<Rightarrow> p) j)))"

definition no_solution_message :: "string \<Rightarrow> response_json \<Rightarrow> json \<Rightarrow> string" where
  "no_solution_message url rj req =
     ''Can't solve challenge: no solution in response for '' @ [CHR 0x27] @ url @ [CHR 0x27]
       @ '': '' @ ''response: '' @ json_dumps (JObj (other_members rj))
       @ '' on request: '' @ json_dumps req"

text \<open>
  \<open>_solve_challenge\<close>, called from \<open>_request\<close>, where \<open>_init_client\<close> has made sure the
  HTTP client exists, so that the jar is always snapshotted. The result is \<open>Inr ()\<close> when
  the method returns and the exception when it raises, with the client as the method
  leaves it in either case: an exception raised after \<open>_user_agent\<close> was assigned leaves
  the new user-agent, and the cookies stored so far, in place.
\<close>

definition solve_challenge ::
  "'w solver_post \<Rightarrow> string \<Rightarrow> client \<times> 'w \<Rightarrow> (error + unit) \<times> (client \<times> 'w) \<times> event list"
where
  "solve_challenge solver_post url s =
     (case s of (c, w) \<Rightarrow>
       (let req = solver_request url c;
            endpoint = solver_url c @ ''/get_cookies''
        in (case solver_post w endpoint req of (outcome, w') \<Rightarrow>
         (let evs = [Solver endpoint req outcome]
          in (case outcome of
               Inl e \<Rightarrow> (Inl e, (c, w'), evs)
             | Inr sr \<Rightarrow>
                 (if sr_status_code sr \<noteq> 200
                  then (Inl (AsyncClient_Exception
                          (''Solver is unavailable: status_code = '' @ str_int (sr_status_code sr))),
                        (c, w'), evs)
                  else
                   (case sr_json sr of
                      None \<Rightarrow> (Inl JSONDecodeError, (c, w'), evs)
                    | Some rj \<Rightarrow>
                        (case solution rj of
                           None \<Rightarrow>
                             (Inl (AsyncClient_Exception (no_solution_message url rj req)),
                              (c, w'), evs)
                         | Some sol \<Rightarrow>
                             (case userAgent sol of
                                None \<Rightarrow> (Inl (KeyError ''userAgent''), (c, w'), evs)
                              | Some ua \<Rightarrow>
                                  (case sol_cookies sol of
                                     None \<Rightarrow>
                                       (Inl (KeyError ''cookies''),
                                        (c\<lparr>user_agent := ua\<rparr>, w'), evs)
                                   | Some cs \<Rightarrow>
                                       (case set_solver_cookies cs (cookies c) of
                                          (r, j) \<Rightarrow>
                                            (r, (c\<lparr>user_agent := ua, cookies := j\<rparr>, w'),
                                             evs))))))))))))"

section \<open>\<open>AsyncClient._request\<close>\<close>

text \<open>The condition under which the body is inspected at all.\<close>

definition inspected :: "response \<Rightarrow> bool" where
  "inspected r \<longleftrightarrow>
     r_status_code r = 403 \<and> startswith (content_type r) ''text/html'' \<and> r_text r \<noteq> []"

text \<open>``check that it is cloud flare unsolvable block'', on the lower-cased body.\<close>

definition unsolvable_block :: "string \<Rightarrow> bool" where
  "unsolvable_block response_text \<longleftrightarrow>
     (contains ''access denied'' response_text \<and> re_search re_access_denied response_text)
     \<or> (contains ''ip banned'' response_text \<and> contains ''cloudflare'' response_text
        \<and> re_search re_ip_banned response_text)"

text \<open>``check that it is cloud flare block'', on the lower-cased body.\<close>

definition solvable_block :: "string \<Rightarrow> bool" where
  "solvable_block response_text \<longleftrightarrow>
     (contains ''just a moment...'' response_text
        \<and> re_search re_just_a_moment response_text)
     \<or> (contains ''attention required!'' response_text
        \<and> re_search re_attention_required response_text)
     \<or> (contains ''captcha challenge'' response_text
        \<and> re_search re_captcha_challenge response_text)
     \<or> (contains ''ddos-guard'' response_text \<and> re_search re_ddos_guard response_text)"

text \<open>\<open>url if not solve_url else solve_url\<close>: \<open>None\<close> and the empty string are both false.\<close>

definition solve_target :: "string \<Rightarrow> string option \<Rightarrow> string" where
  "solve_target url solve_url =
     (case solve_url of None \<Rightarrow> url | Some u \<Rightarrow> (if u = [] then url else u))"

definition send_headers :: "headers \<Rightarrow> client \<Rightarrow> headers" where
  "send_headers hs c = hs(''user-agent'' \<mapsto> user_agent c, ''cache-control'' \<mapsto> ''no-cache'')"

definition retries_message :: string where
  "retries_message =
     ''Can't solve challenge: challenge got '' @ str_int (int max_tries)
       @ '' times ... (max tries exceded)''"

text \<open>
  The \<open>for\<close> loop with \<open>n\<close> iterations left; falling out of it raises. The result is what
  the call returns or raises, the client and the world as the call leaves them, and the
  calls made.
\<close>

fun request_loop ::
  "nat \<Rightarrow> 'w solver_post \<Rightarrow> 'w run_method \<Rightarrow> string \<Rightarrow> string option \<Rightarrow> headers
     \<Rightarrow> client \<times> 'w \<Rightarrow> (error + response) \<times> (client \<times> 'w) \<times> event list"
where
  "request_loop 0 solver_post run_method url solve_url hs s =
     (Inl (AsyncClient_Exception retries_message), s, [])"
| "request_loop (Suc n) solver_post run_method url solve_url hs s =
     (case s of (c, w) \<Rightarrow>
       (case run_method w url (send_headers hs c) (cookies c) of (outcome, j, w1) \<Rightarrow>
         (let s1 = (c\<lparr>cookies := j\<rparr>, w1);
              ev = Transport url (send_headers hs c) (cookies c) outcome j
          in (case outcome of
                Inl e \<Rightarrow> (Inl e, s1, [ev])
              | Inr response \<Rightarrow>
                  (if inspected response
                   then
                     (if unsolvable_block (lower (r_text response))
                      then (Inl (CloudFlareBlocked ''IP blocked by cloud flare''), s1, [ev])
                      else if solvable_block (lower (r_text response))
                      then
                        (case solve_challenge solver_post (solve_target url solve_url) s1 of
                           (Inl e, s2, evs) \<Rightarrow> (Inl e, s2, ev # evs)
                         | (Inr u, s2, evs) \<Rightarrow>
                             (case request_loop n solver_post run_method url solve_url hs s2 of
                                (res, s3, evs') \<Rightarrow> (res, s3, ev # evs @ evs')))
                      else (Inr response, s1, [ev]))
                   else (Inr response, s1, [ev]))))))"

definition request ::
  "'w solver_post \<Rightarrow> 'w run_method \<Rightarrow> string \<Rightarrow> string option \<Rightarrow> headers
     \<Rightarrow> client \<times> 'w \<Rightarrow> (error + response) \<times> (client \<times> 'w) \<times> event list"
where
  "request = request_loop max_tries"

section \<open>Classification and traces\<close>

text \<open>
  The four outcomes of inspecting a response, read off the branches of \<open>_request\<close> in
  their order: the body is not inspected, the unsolvable block, the solvable block,
  neither.
\<close>

datatype classification = OK | HARD_BLOCK | CHALLENGE | UNRELATED_403

definition classify :: "response \<Rightarrow> classification" where
  "classify r =
     (if \<not> inspected r then OK
      else if unsolvable_block (lower (r_text r)) then HARD_BLOCK
      else if solvable_block (lower (r_text r)) then CHALLENGE
      else UNRELATED_403)"

abbreviation result_of :: "'a \<times> 'b \<times> 'c \<Rightarrow> 'a" where
  "result_of x \<equiv> fst x"

abbreviation client_of :: "'a \<times> (client \<times> 'w) \<times> 'c \<Rightarrow> client" where
  "client_of x \<equiv> fst (fst (snd x))"

abbreviation world_of :: "'a \<times> (client \<times> 'w) \<times> 'c \<Rightarrow> 'w" where
  "world_of x \<equiv> snd (fst (snd x))"

abbreviation trace_of :: "'a \<times> 'b \<times> 'c \<Rightarrow> 'c" where
  "trace_of x \<equiv> snd (snd x)"

fun is_solver :: "event \<Rightarrow> bool" where
  "is_solver (Solver ep q out) = True"
| "is_solver (Transport u h j out j') = False"

text \<open>The answer of the solver lets \<open>_solve_challenge\<close> run to its end: status 200, a
  \<open>solution\<close> with \<open>userAgent\<close> and \<open>cookies\<close>, every cookie with \<open>name\<close> and \<open>value\<close>.\<close>

definition complete_cookie :: "solver_cookie \<Rightarrow> bool" where
  "complete_cookie c \<longleftrightarrow> sc_name c \<noteq> None \<and> sc_value c \<noteq> None"

definition complete_solution :: "solver_response \<Rightarrow> bool" where
  "complete_solution sr \<longleftrightarrow>
     sr_status_code sr = 200 \<and>
     (case sr_json sr of
        None \<Rightarrow> False
      | Some rj \<Rightarrow>
          (case solution rj of
             None \<Rightarrow> False
           | Some sol \<Rightarrow>
               userAgent sol \<noteq> None \<and>
               (case sol_cookies sol of None \<Rightarrow> False | Some cs \<Rightarrow> list_all complete_cookie cs)))"

text \<open>An attempt that came back as a challenge; a solver call that was answered with a
  complete solution.\<close>

fun challenged_and_solved :: "event \<Rightarrow> bool" where
  "challenged_and_solved (Transport u h j out j') =
     (case out of Inl e \<Rightarrow> False | Inr r \<Rightarrow> classify r = CHALLENGE)"
| "challenged_and_solved (Solver ep q out) =
     (case out of Inl e \<Rightarrow> False | Inr sr \<Rightarrow> complete_solution sr)"

text \<open>The classifications of the responses received in a trace, in order.\<close>

fun attempt_classes :: "event list \<Rightarrow> classification list" where
  "attempt_classes [] = []"
| "attempt_classes (Transport u h j out j' # evs) =
     (case out of Inl e \<Rightarrow> [] | Inr r \<Rightarrow> [classify r]) @ attempt_classes evs"
| "attempt_classes (Solver ep q out # evs) = attempt_classes evs"

text \<open>The headers of the transport calls of a trace, and the endpoint and payload of its
  solver calls, in order.\<close>

fun sent_headers :: "event list \<Rightarrow> headers list" where
  "sent_headers [] = []"
| "sent_headers (Transport u h j out j' # evs) = h # sent_headers evs"
| "sent_headers (Solver ep q out # evs) = sent_headers evs"

fun solver_requests :: "event list \<Rightarrow> (string \<times> json) list" where
  "solver_requests [] = []"
| "solver_requests (Transport u h j out j' # evs) = solver_requests evs"
| "solver_requests (Solver ep q out # evs) = (ep, q) # solver_requests evs"

text \<open>The key under which the jar files a cookie of the solver.\<close>

definition cookie_key :: "solver_cookie \<Rightarrow> string \<times> string \<times> string" where
  "cookie_key c =
     (the (sc_name c),
      (case sc_domain c of None \<Rightarrow> [] | Some d \<Rightarrow> d),
      (case sc_path c of None \<Rightarrow> ''/'' | Some p \<Rightarrow> p))"

text \<open>The cookie the jar holds for a cookie of the solver: \<open>httpx.Cookies.set\<close> keeps
  name, value, domain and path and fills in the rest.\<close>

definition stored_cookie :: "solver_cookie \<Rightarrow> cookie" where
  "stored_cookie c =
     \<lparr>ck_name = fst (cookie_key c), ck_value = sc_value c,
      ck_domain = fst (snd (cookie_key c)), ck_path = snd (snd (cookie_key c)),
      ck_port = None, ck_secure = False, ck_expires = None\<rparr>"

text \<open>The headers of an attempt as the specification words them: the session's user-agent
  and \<open>no-cache\<close> first, the caller's entry for every other key.\<close>

definition merged_headers :: "headers \<Rightarrow> string \<Rightarrow> headers" where
  "merged_headers hs ua =
     (\<lambda>k. if k = ''user-agent'' then Some ua
          else if k = ''cache-control'' then Some ''no-cache''
          else hs k)"

text \<open>The user-agent of the session after a solver call with the given outcome.\<close>

definition ua_after :: "string \<Rightarrow> error + solver_response \<Rightarrow> string" where
  "ua_after ua out =
     (case out of
        Inl e \<Rightarrow> ua
      | Inr sr \<Rightarrow>
          (if sr_status_code sr \<noteq> 200 then ua
           else (case sr_json sr of
                   None \<Rightarrow> ua
                 | Some rj \<Rightarrow>
                     (case solution rj of
                        None \<Rightarrow> ua
                      | Some sol \<Rightarrow> (case userAgent sol of None \<Rightarrow> ua | Some u \<Rightarrow> u)))))"

text \<open>Every transport call of a trace carries the merged headers, with the user-agent
  current at that point of the trace.\<close>

fun headers_sent_ok :: "headers \<Rightarrow> string \<Rightarrow> event list \<Rightarrow> bool" where
  "headers_sent_ok hs ua [] = True"
| "headers_sent_ok hs ua (Transport u h j out j' # evs) =
     (h = merged_headers hs ua \<and> headers_sent_ok hs ua evs)"
| "headers_sent_ok hs ua (Solver ep q out # evs) = headers_sent_ok hs (ua_after ua out) evs"

text \<open>The solve request as the specification words it, for a target and a jar.\<close>

definition expected_request :: "string \<Rightarrow> jar \<Rightarrow> string option \<Rightarrow> json" where
  "expected_request target j px =
     JObj [(''maxTimeout'', JNum 60000),
           (''url'', JStr target),
           (''cookies'',
            JArr (map (\<lambda>c. JObj [(''name'', JStr (ck_name c)),
                                 (''value'', case ck_value c of None \<Rightarrow> JNull | Some v \<Rightarrow> JStr v),
                                 (''domain'', JStr (ck_domain c)),
                                 (''path'', JStr (ck_path c)),
                                 (''port'', case ck_port c of None \<Rightarrow> JNull | Some p \<Rightarrow> JStr p),
                                 (''secure'', JBool (ck_secure c)),
                                 (''expires'', case ck_expires c of None \<Rightarrow> JNull | Some e \<Rightarrow> JNum e)])
                      (jar_iter j))),
           (''proxy'', case px of None \<Rightarrow> JNull | Some p \<Rightarrow> JStr p)]"

text \<open>Every solver call of a trace follows a transport call, goes to the endpoint and
  carries the expected request for the jar that transport call left.\<close>

fun solve_requests_ok :: "string \<Rightarrow> string \<Rightarrow> string option \<Rightarrow> event list \<Rightarrow> bool" where
  "solve_requests_ok ep target px [] = True"
| "solve_requests_ok ep target px [Transport u h j out j'] = True"
| "solve_requests_ok ep target px (Transport u h j out j' # Transport u2 h2 j2 out2 j2' # evs) =
     solve_requests_ok ep target px (Transport u2 h2 j2 out2 j2' # evs)"
| "solve_requests_ok ep target px (Transport u h j out j' # Solver ep' q out' # evs) =
     (ep' = ep \<and> q = expected_request target j' px \<and> solve_requests_ok ep target px evs)"
| "solve_requests_ok ep target px (Solver ep' q out' # evs) = False"

text \<open>The title pattern as the specification words it, for any marker phrase: the phrase
  inside a \<open>title\<close> element, with text free of angle brackets around it.
  \<^verbatim>\<open><\s*title\s*>[^><]*PHRASE[^><]*<\s*/\s*title\s*>\<close>\<close>

definition title_pattern :: "string \<Rightarrow> pattern" where
  "title_pattern phrase =
     title_open @ [Many NotAngle] @ lit phrase @ [Many NotAngle] @ title_close"

definition marker_phrases :: "string list" where
  "marker_phrases =
     [''just a moment...'', ''attention required!'', ''captcha challenge'', ''ddos-guard'']"

text \<open>The lower-cased body holds a marker phrase and a title element matching that same
  phrase.\<close>

definition marked_as_challenge :: "string \<Rightarrow> bool" where
  "marked_as_challenge t \<longleftrightarrow>
     list_ex (\<lambda>phrase. contains phrase t \<and> re_search (title_pattern phrase) t) marker_phrases"

text \<open>The same with the pattern the client uses for each phrase.\<close>

definition marker_patterns :: "(string \<times> pattern) list" where
  "marker_patterns =
     [(''just a moment...'', title_pattern ''just a moment...''),
      (''attention required!'',
       title_open @ [Many NotAngle] @ lit ''attention required'' @ [Many Ws] @ lit ''!''
         @ [Many NotAngle] @ title_close),
      (''captcha challenge'', title_pattern ''captcha challenge''),
      (''ddos-guard'', title_pattern ''ddos-guard'')]"

section \<open>Scripted environments\<close>

text \<open>
  A world made of the responses the site will give and the answers the solver will give,
  in order. The transport leaves the jar as it is.
\<close>

type_synonym script = "response list \<times> solver_response list"

definition script_run :: "script run_method" where
  "script_run w url hs j =
     (case fst w of
        [] \<Rightarrow> (Inl (TransportError ''connection refused''), j, w)
      | r # rs \<Rightarrow> (Inr r, j, (rs, snd w)))"

definition script_post :: "script solver_post" where
  "script_post w endpoint req =
     (case snd w of
        [] \<Rightarrow> (Inl (TransportError ''connection refused''), w)
      | a # as \<Rightarrow> (Inr a, (fst w, as)))"

definition html :: "int \<Rightarrow> string \<Rightarrow> response" where
  "html st body =
     \<lparr>r_status_code = st, r_content_type = Some ''text/html; charset=UTF-8'', r_text = body\<rparr>"

definition challenge_page :: response where
  "challenge_page =
     html 403 ''<!DOCTYPE html><html><head><title>Just a moment...</title></head><body></body></html>''"

definition blocked_page :: response where
  "blocked_page =
     html 403 ''<html><head><title>Access denied | example.com used Cloudflare to restrict access</title></head></html>''"

definition banned_page :: response where
  "banned_page =
     html 403 ''<html><head><title>IP banned</title></head><body>Cloudflare</body></html>''"

definition forbidden_page :: response where
  "forbidden_page = html 403 ''<html><head><title>403 Forbidden</title></head></html>''"

definition ok_page :: response where
  "ok_page = html 200 ''<html><head><title>Just a moment...</title></head></html>''"

definition spaced_title_page :: response where
  "spaced_title_page =
     html 403 ''<title>Attention Required !</title><p>attention required!</p>''"

definition clearance :: solver_cookie where
  "clearance =
     \<lparr>sc_name = Some ''cf_clearance'', sc_value = Some ''v1'',
      sc_domain = Some ''example.com'', sc_path = Some ''/''\<rparr>"

definition bare_cookie :: solver_cookie where
  "bare_cookie =
     \<lparr>sc_name = Some ''sid'', sc_value = Some ''7'', sc_domain = None, sc_path = None\<rparr>"

definition solved :: solver_response where
  "solved =
     \<lparr>sr_status_code = 200,
      sr_json = Some \<lparr>solution = Some \<lparr>userAgent = Some ''UA2'',
                                          sol_cookies = Some [clearance, bare_cookie]\<rparr>,
                      other_members = [(''status'', JStr ''ok'')]\<rparr>\<rparr>"

definition unavailable :: solver_response where
  "unavailable = \<lparr>sr_status_code = 500, sr_json = None\<rparr>"

definition no_solution :: solver_response where
  "no_solution =
     \<lparr>sr_status_code = 200,
      sr_json = Some \<lparr>solution = None, other_members = [(''status'', JStr ''error'')]\<rparr>\<rparr>"

definition session_cookie :: cookie where
  "session_cookie =
     \<lparr>ck_name = ''session'', ck_value = Some ''abc'', ck_domain = ''example.com'',
      ck_path = ''/'', ck_port = None, ck_secure = True, ck_expires = Some 1900000000\<rparr>"

definition a_client :: client where
  "a_client =
     \<lparr>solver_url = ''http://solver:8080'', proxy = None, user_agent = default_user_agent,
      cookies = set_cookie session_cookie []\<rparr>"

definition a_url :: string where
  "a_url = ''https://example.com/a''"

text \<open>Two answers that break off a solve half-way: a solution without \<open>cookies\<close>, and a
  solution whose second cookie has no \<open>value\<close>.\<close>

definition no_cookies_solution :: solver_response where
  "no_cookies_solution =
     \<lparr>sr_status_code = 200,
      sr_json = Some \<lparr>solution = Some \<lparr>userAgent = Some ''UA2'', sol_cookies = None\<rparr>,
                      other_members = []\<rparr>\<rparr>"

definition valueless_cookie :: solver_cookie where
  "valueless_cookie =
     \<lparr>sc_name = Some ''tracker'', sc_value = None, sc_domain = None, sc_path = None\<rparr>"

definition broken_cookie_solution :: solver_response where
  "broken_cookie_solution =
     \<lparr>sr_status_code = 200,
      sr_json = Some \<lparr>solution = Some \<lparr>userAgent = Some ''UA2'',
                                          sol_cookies = Some [clearance, valueless_cookie,
                                                              bare_cookie]\<rparr>,
                      other_members = []\<rparr>\<rparr>"

section \<open>The matcher\<close>

text \<open>\<open>re_search\<close> answers whether some substring is denoted by the pattern.\<close>

lemma match_here_prefix:
  "match_here p s \<longleftrightarrow> (\<exists>m r. s = m @ r \<and> denotes p m)"
proof (induction p s rule: match_here.induct)
  case (1 s)
  show ?case by simp
next
  case (2 k p)
  show ?case by simp
next
  case (3 k p x xs)
  show ?case
  proof (cases "in_cls k x")
    case True
    with 3 have "match_here (One k # p) (x # xs) \<longleftrightarrow> (\<exists>m r. xs = m @ r \<and> denotes p m)"
      by simp
    also have "\<dots> \<longleftrightarrow> (\<exists>m r. x # xs = m @ r \<and> denotes (One k # p) m)"
      using True by (auto simp: Cons_eq_append_conv) 
    finally show ?thesis .
  next
    case False
    then show ?thesis by (auto simp: Cons_eq_append_conv)
  qed
next
  case (4 k p)
  then show ?case by simp
next
  case (5 k p x xs)
  have rest: "match_here p (x # xs) \<longleftrightarrow> (\<exists>m r. x # xs = m @ r \<and> denotes p m)"
    if "\<not> (in_cls k x \<and> match_here (Many k # p) xs)"
    using 5 that by (cases "in_cls k x") simp_all
  show ?case
  proof
    assume l: "match_here (Many k # p) (x # xs)"
    show "\<exists>m r. x # xs = m @ r \<and> denotes (Many k # p) m"
    proof (cases "in_cls k x \<and> match_here (Many k # p) xs")
      case True
      then obtain m r ys zs where "xs = m @ r" "m = ys @ zs" "list_all (in_cls k) ys" "denotes p zs"
        using 5 by auto
      then have "x # xs = (x # m) @ r \<and> x # m = (x # ys) @ zs \<and> list_all (in_cls k) (x # ys) \<and> denotes p zs"
        using True by simp
      then show ?thesis
        by (metis denotes.simps(3))
    next
      case False
      then have "match_here p (x # xs)"
        using l by (auto split: if_splits)
      then obtain m r where "x # xs = m @ r" "denotes p m"
        using rest [OF False] by blast
      then have "x # xs = m @ r \<and> m = [] @ m \<and> list_all (in_cls k) [] \<and> denotes p m"
        by simp
      then show ?thesis
        by (metis denotes.simps(3))
    qed
  next
    assume "\<exists>m r. x # xs = m @ r \<and> denotes (Many k # p) m"
    then obtain m r ys zs where m: "x # xs = m @ r" "m = ys @ zs" "list_all (in_cls k) ys" "denotes p zs"
      by auto
    show "match_here (Many k # p) (x # xs)"
    proof (cases ys)
      case Nil
      show ?thesis
      proof (cases "in_cls k x \<and> match_here (Many k # p) xs")
        case True
        then show ?thesis by simp
      next
        case False
        have "match_here p (x # xs)"
          using m Nil rest [OF False] by auto
        then show ?thesis by simp
      qed
    next
      case (Cons y ys')
      then have x: "in_cls k x" and "xs = (ys' @ zs) @ r" "list_all (in_cls k) ys'"
        using m by auto
      then have "\<exists>m r. xs = m @ r \<and> denotes (Many k # p) m"
        using m(4) by (metis denotes.simps(3))
      then have "match_here (Many k # p) xs"
        using 5 x by simp
      then show ?thesis
        using x by simp
    qed
  qed
qed

lemma re_search_substring:
  "re_search p s \<longleftrightarrow> (\<exists>a m b. s = a @ m @ b \<and> denotes p m)"
proof (induction s)
  case Nil
  show ?case by (simp add: match_here_prefix)
next
  case (Cons x xs)
  show ?case
  proof
    assume "re_search p (x # xs)"
    then consider "match_here p (x # xs)" | "re_search p xs"
      by (auto split: if_splits)
    then show "\<exists>a m b. x # xs = a @ m @ b \<and> denotes p m"
    proof cases
      case 1
      then obtain m r where "x # xs = [] @ m @ r" "denotes p m"
        by (auto simp: match_here_prefix)
      then show ?thesis by blast
    next
      case 2
      then obtain a m b where "xs = a @ m @ b" "denotes p m"
        using Cons by blast
      then have "x # xs = (x # a) @ m @ b \<and> denotes p m"
        by simp
      then show ?thesis by blast
    qed
  next
    assume "\<exists>a m b. x # xs = a @ m @ b \<and> denotes p m"
    then obtain a m b where s: "x # xs = a @ m @ b" and d: "denotes p m"
      by blast
    show "re_search p (x # xs)"
    proof (cases a)
      case Nil
      then have "match_here p (x # xs)"
        using s d by (auto simp: match_here_prefix)
      then show ?thesis by simp
    next
      case (Cons y a')
      then have "xs = a' @ m @ b"
        using s by simp
      then have "re_search p xs"
        using d Cons.IH by blast
      then show ?thesis by simp
    qed
  qed
qed

section \<open>Properties of \<open>_solve_challenge\<close>\<close>

lemma contains_mid: "contains x (a @ x @ b)"
  by (simp add: contains_def)

lemma solve_challenge_unavailable:
  assumes "solver_post w (solver_url c @ ''/get_cookies'') (solver_request url c) = (Inr sr, w')"
      and "sr_status_code sr \<noteq> 200"
  shows "solve_challenge solver_post url (c, w) =
           (Inl (AsyncClient_Exception
                   (''Solver is unavailable: status_code = '' @ str_int (sr_status_code sr))),
            (c, w'),
            [Solver (solver_url c @ ''/get_cookies'') (solver_request url c) (Inr sr)])"
  using assms by (simp add: solve_challenge_def Let_def)

lemma solve_challenge_no_solution:
  assumes "solver_post w (solver_url c @ ''/get_cookies'') (solver_request url c) = (Inr sr, w')"
      and "sr_status_code sr = 200" and "sr_json sr = Some rj" and "solution rj = None"
  shows "solve_challenge solver_post url (c, w) =
           (Inl (AsyncClient_Exception (no_solution_message url rj (solver_request url c))),
            (c, w'),
            [Solver (solver_url c @ ''/get_cookies'') (solver_request url c) (Inr sr)])"
  using assms by (simp add: solve_challenge_def Let_def)

lemma solve_challenge_trace:
  "trace_of (solve_challenge solver_post url (c, w)) =
     [Solver (solver_url c @ ''/get_cookies'') (solver_request url c)
        (fst (solver_post w (solver_url c @ ''/get_cookies'') (solver_request url c)))]"
  by (simp add: solve_challenge_def Let_def split: prod.splits sum.splits option.splits)

lemma solve_challenge_world:
  "world_of (solve_challenge solver_post url (c, w)) =
     snd (solver_post w (solver_url c @ ''/get_cookies'') (solver_request url c))"
  by (simp add: solve_challenge_def Let_def split: prod.splits sum.splits option.splits)

lemma solve_challenge_config:
  "solver_url (client_of (solve_challenge solver_post url (c, w))) = solver_url c \<and>
   proxy (client_of (solve_challenge solver_post url (c, w))) = proxy c"
  by (simp add: solve_challenge_def Let_def split: prod.splits sum.splits option.splits)

lemma solve_challenge_user_agent:
  "user_agent (client_of (solve_challenge solver_post url (c, w))) =
     ua_after (user_agent c) (fst (solver_post w (solver_url c @ ''/get_cookies'') (solver_request url c)))"
  by (simp add: solve_challenge_def ua_after_def Let_def split: prod.splits sum.splits option.splits)

lemma set_solver_cookies_complete:
  "list_all complete_cookie cs \<Longrightarrow> fst (set_solver_cookies cs j) = Inr ()"
  by (induction cs arbitrary: j) (auto simp: complete_cookie_def)

lemma set_solver_cookies_complete':
  "set_solver_cookies cs j = (x, y) \<Longrightarrow> list_all complete_cookie cs \<Longrightarrow> x = Inr ()"
  using set_solver_cookies_complete [of cs j] by simp

lemma solve_challenge_complete:
  assumes "solver_post w (solver_url c @ ''/get_cookies'') (solver_request url c) = (Inr sr, w')"
      and "complete_solution sr"
  shows "result_of (solve_challenge solver_post url (c, w)) = Inr ()"
  using assms
  by (auto simp: solve_challenge_def complete_solution_def Let_def
           split: prod.splits option.splits dest: set_solver_cookies_complete')

section \<open>Properties of \<open>_request\<close>\<close>

declare request_loop.simps [simp del]

lemma request_loop_step:
  assumes "run_method w url (send_headers hs c) (cookies c) = (Inr r, j, w1)"
  shows "request_loop (Suc n) solver_post run_method url solve_url hs (c, w) =
     (let s1 = (c\<lparr>cookies := j\<rparr>, w1);
          ev = Transport url (send_headers hs c) (cookies c) (Inr r) j
      in (case classify r of
            OK \<Rightarrow> (Inr r, s1, [ev])
          | UNRELATED_403 \<Rightarrow> (Inr r, s1, [ev])
          | HARD_BLOCK \<Rightarrow> (Inl (CloudFlareBlocked ''IP blocked by cloud flare''), s1, [ev])
          | CHALLENGE \<Rightarrow>
              (case solve_challenge solver_post (solve_target url solve_url) s1 of
                 (Inl e, s2, evs) \<Rightarrow> (Inl e, s2, ev # evs)
               | (Inr u, s2, evs) \<Rightarrow>
                   (case request_loop n solver_post run_method url solve_url hs s2 of
                      (res, s3, evs') \<Rightarrow> (res, s3, ev # evs @ evs')))))"
  using assms by (simp add: request_loop.simps classify_def Let_def)

lemma request_loop_error:
  assumes "run_method w url (send_headers hs c) (cookies c) = (Inl e, j, w1)"
  shows "request_loop (Suc n) solver_post run_method url solve_url hs (c, w) =
     (Inl e, (c\<lparr>cookies := j\<rparr>, w1), [Transport url (send_headers hs c) (cookies c) (Inl e) j])"
  using assms by (simp add: request_loop.simps Let_def)

section \<open>The claims\<close>

text \<open>
  C7. For every solver response with a status other than 200 the solve fails with the
  exception the specification calls \<open>SolverUnavailable\<close>
  (\<open>AsyncClient.Exception\<close> with the message \<open>Solver is unavailable: status_code = ...\<close>).
  What is raised and the client afterwards are given by the status alone, so the body is
  not consulted. The solver is called once, and the request that started the solve raises
  the same exception without a further call, whatever the number \<open>n\<close> of attempts left.
\<close>

theorem solver_unavailable:
  assumes "run_method w url (send_headers hs c) (cookies c) = (Inr r, j, w1)"
      and "classify r = CHALLENGE"
      and "solver_post w1 (solver_url c @ ''/get_cookies'')
             (solver_request (solve_target url solve_url) (c\<lparr>cookies := j\<rparr>)) = (Inr sr, w2)"
      and "sr_status_code sr \<noteq> 200"
  shows "solve_challenge solver_post (solve_target url solve_url) (c\<lparr>cookies := j\<rparr>, w1) =
           (Inl (AsyncClient_Exception
                   (''Solver is unavailable: status_code = '' @ str_int (sr_status_code sr))),
            (c\<lparr>cookies := j\<rparr>, w2),
            [Solver (solver_url c @ ''/get_cookies'')
               (solver_request (solve_target url solve_url) (c\<lparr>cookies := j\<rparr>)) (Inr sr)])
         \<and> request_loop (Suc n) solver_post run_method url solve_url hs (c, w) =
           (Inl (AsyncClient_Exception
                   (''Solver is unavailable: status_code = '' @ str_int (sr_status_code sr))),
            (c\<lparr>cookies := j\<rparr>, w2),
            [Transport url (send_headers hs c) (cookies c) (Inr r) j,
             Solver (solver_url c @ ''/get_cookies'')
               (solver_request (solve_target url solve_url) (c\<lparr>cookies := j\<rparr>)) (Inr sr)])"
proof -
  have solve: "solve_challenge solver_post (solve_target url solve_url) (c\<lparr>cookies := j\<rparr>, w1) =
           (Inl (AsyncClient_Exception
                   (''Solver is unavailable: status_code = '' @ str_int (sr_status_code sr))),
            (c\<lparr>cookies := j\<rparr>, w2),
            [Solver (solver_url c @ ''/get_cookies'')
               (solver_request (solve_target url solve_url) (c\<lparr>cookies := j\<rparr>)) (Inr sr)])"
    using solve_challenge_unavailable [of solver_post w1 "c\<lparr>cookies := j\<rparr>"] assms(3,4) by simp
  show ?thesis
    using solve assms(2)
    by (simp add: request_loop_step [where run_method = run_method, OF assms(1)] Let_def)
qed

theorem solver_unavailable_witness:
  "classify challenge_page = CHALLENGE \<and> sr_status_code unavailable \<noteq> 200 \<and>
   request_loop (Suc 1) script_post script_run a_url None Map.empty
       (a_client, ([challenge_page, ok_page], [unavailable])) =
     (Inl (AsyncClient_Exception ''Solver is unavailable: status_code = 500''),
      (a_client, ([ok_page], [])),
      [Transport a_url (send_headers Map.empty a_client) (cookies a_client) (Inr challenge_page)
         (cookies a_client),
       Solver ''http://solver:8080/get_cookies'' (solver_request a_url a_client)
         (Inr unavailable)])"
proof -
  have h1: "script_run ([challenge_page, ok_page], [unavailable]) a_url
              (send_headers Map.empty a_client) (cookies a_client) =
            (Inr challenge_page, cookies a_client, ([ok_page], [unavailable]))"
    by (simp add: script_run_def)
  have h2: "classify challenge_page = CHALLENGE"
    by code_simp
  have h3: "script_post ([ok_page], [unavailable]) (solver_url a_client @ ''/get_cookies'')
              (solver_request (solve_target a_url None) (a_client\<lparr>cookies := cookies a_client\<rparr>)) =
            (Inr unavailable, ([ok_page], []))"
    by (simp add: script_post_def)
  have h4: "sr_status_code unavailable \<noteq> 200"
    by (simp add: unavailable_def)
  have h5: "str_int 500 = ''500''"
    by code_simp
  have h6: "solver_url a_client = ''http://solver:8080''"
    by (simp add: a_client_def)
  show ?thesis
    using solver_unavailable [where run_method = script_run and solver_post = script_post
        and w = "([challenge_page, ok_page], [unavailable])" and url = a_url
        and hs = Map.empty and c = a_client and r = challenge_page and j = "cookies a_client"
        and ?w1.0 = "([ok_page], [unavailable])" and solve_url = None and sr = unavailable
        and ?w2.0 = "([ok_page], [])" and n = 1, OF h1 h2 h3 h4] h2 h4 h5 h6
    by (simp add: unavailable_def solve_target_def)
qed

text \<open>
  C8. For every solver response with status 200 whose JSON body has no \<open>solution\<close> member
  the solve fails with the exception the specification calls \<open>SolverProtocolError\<close>
  (\<open>AsyncClient.Exception\<close> with the message \<open>Can't solve challenge: no solution in
  response for ...\<close>), and the message contains the target URL, the serialised response
  and the serialised solve request.
\<close>

theorem solver_protocol_error:
  assumes "solver_post w (solver_url c @ ''/get_cookies'') (solver_request url c) = (Inr sr, w')"
      and "sr_status_code sr = 200"
      and "sr_json sr = Some rj"
      and "solution rj = None"
  shows "solve_challenge solver_post url (c, w) =
           (Inl (AsyncClient_Exception (no_solution_message url rj (solver_request url c))),
            (c, w'),
            [Solver (solver_url c @ ''/get_cookies'') (solver_request url c) (Inr sr)])
         \<and> contains url (no_solution_message url rj (solver_request url c))
         \<and> contains (json_dumps (JObj (other_members rj)))
               (no_solution_message url rj (solver_request url c))
         \<and> contains (json_dumps (solver_request url c))
               (no_solution_message url rj (solver_request url c))"
proof -
  let ?m = "no_solution_message url rj (solver_request url c)"
  have "contains url ?m"
    unfolding no_solution_message_def
    using contains_mid [of url "''Can't solve challenge: no solution in response for '' @ [CHR 0x27]"]
    by simp
  moreover have "contains (json_dumps (JObj (other_members rj))) ?m"
    unfolding no_solution_message_def
    using contains_mid [of "json_dumps (JObj (other_members rj))"
        "''Can't solve challenge: no solution in response for '' @ [CHR 0x27] @ url
           @ [CHR 0x27] @ '': '' @ ''response: ''"
        "'' on request: '' @ json_dumps (solver_request url c)"]
    by simp
  moreover have "contains (json_dumps (solver_request url c)) ?m"
    unfolding no_solution_message_def
    using contains_mid [of "json_dumps (solver_request url c)"
        "''Can't solve challenge: no solution in response for '' @ [CHR 0x27] @ url
           @ [CHR 0x27] @ '': '' @ ''response: '' @ json_dumps (JObj (other_members rj))
           @ '' on request: ''" "[]"]
    by simp
  ultimately show ?thesis
    using solve_challenge_no_solution [where solver_post = solver_post, OF assms] by simp
qed

theorem solver_protocol_error_witness:
  "sr_status_code no_solution = 200 \<and>
   sr_json no_solution = Some \<lparr>solution = None, other_members = [(''status'', JStr ''error'')]\<rparr> \<and>
   result_of (solve_challenge script_post a_url (a_client, ([], [no_solution]))) =
     Inl (AsyncClient_Exception
       ''Can't solve challenge: no solution in response for 'https://example.com/a': response: {\"status\": \"error\"} on request: {\"maxTimeout\": 60000, \"url\": \"https://example.com/a\", \"cookies\": [{\"name\": \"session\", \"value\": \"abc\", \"domain\": \"example.com\", \"path\": \"/\", \"port\": null, \"secure\": true, \"expires\": 1900000000}], \"proxy\": null}'') \<and>
   contains a_url
     (no_solution_message a_url \<lparr>solution = None, other_members = [(''status'', JStr ''error'')]\<rparr>
        (solver_request a_url a_client)) \<and>
   contains ''{\"status\": \"error\"}''
     (no_solution_message a_url \<lparr>solution = None, other_members = [(''status'', JStr ''error'')]\<rparr>
        (solver_request a_url a_client))"
proof -
  let ?rj = "\<lparr>solution = None, other_members = [(''status'', JStr ''error'')]\<rparr>"
  have h1: "script_post ([], [no_solution]) (solver_url a_client @ ''/get_cookies'')
              (solver_request a_url a_client) = (Inr no_solution, ([], []))"
    by (simp add: script_post_def)
  have h2: "sr_status_code no_solution = 200"
    by (simp add: no_solution_def)
  have h3: "sr_json no_solution = Some ?rj"
    by (simp add: no_solution_def)
  have h4: "solution ?rj = None"
    by simp
  have m: "no_solution_message a_url ?rj (solver_request a_url a_client) =
       ''Can't solve challenge: no solution in response for 'https://example.com/a': response: {\"status\": \"error\"} on request: {\"maxTimeout\": 60000, \"url\": \"https://example.com/a\", \"cookies\": [{\"name\": \"session\", \"value\": \"abc\", \"domain\": \"example.com\", \"path\": \"/\", \"port\": null, \"secure\": true, \"expires\": 1900000000}], \"proxy\": null}''"
    by code_simp
  have d: "json_dumps (JObj (other_members ?rj)) = ''{\"status\": \"error\"}''"
    by code_simp
  note t = solver_protocol_error [where solver_post = script_post and w = "([], [no_solution])"
        and c = a_client and url = a_url and sr = no_solution and w' = "([], [])" and rj = ?rj,
        OF h1 h2 h3 h4]
  have r: "result_of (solve_challenge script_post a_url (a_client, ([], [no_solution]))) =
       Inl (AsyncClient_Exception (no_solution_message a_url ?rj (solver_request a_url a_client)))"
    using t by simp
  have c1: "contains a_url (no_solution_message a_url ?rj (solver_request a_url a_client))"
    using t by blast
  have c2: "contains (json_dumps (JObj (other_members ?rj)))
              (no_solution_message a_url ?rj (solver_request a_url a_client))"
    using t by blast
  show ?thesis
    using h2 h3 r [unfolded m] c1 c2 [unfolded d] by (intro conjI)
qed

text \<open>
  C10, as amended. Whenever a solve fails because the solver's status is not 200 or
  because its response has no \<open>solution\<close> member, the solve raises and the client is
  exactly what it was before: same user-agent, same jar. Both exceptions are raised before
  the first assignment of the method. The amended claim says nothing on a solve that
  raises later: \<open>_user_agent\<close> is assigned before \<open>cookies\<close> is subscripted and before
  the cookies are stored one by one, so a solution without \<open>cookies\<close>, or with a cookie
  that lacks \<open>name\<close> or \<open>value\<close>, is applied in part.
\<close>

theorem failed_solve_keeps_session:
  assumes "solver_post w (solver_url c @ ''/get_cookies'') (solver_request url c) = (Inr sr, w')"
      and "sr_status_code sr \<noteq> 200 \<or> (\<exists>rj. sr_json sr = Some rj \<and> solution rj = None)"
  shows "(\<exists>e. result_of (solve_challenge solver_post url (c, w)) = Inl e)
         \<and> client_of (solve_challenge solver_post url (c, w)) = c
         \<and> user_agent (client_of (solve_challenge solver_post url (c, w))) = user_agent c
         \<and> cookies (client_of (solve_challenge solver_post url (c, w))) = cookies c"
proof (cases "sr_status_code sr = 200")
  case False
  then show ?thesis
    using solve_challenge_unavailable [where solver_post = solver_post, OF assms(1)] by simp
next
  case True
  then obtain rj where "sr_json sr = Some rj" and "solution rj = None"
    using assms(2) by blast
  then show ?thesis
    using solve_challenge_no_solution [where solver_post = solver_post, OF assms(1) True] by simp
qed

theorem failed_solve_keeps_session_witness:
  "sr_status_code unavailable \<noteq> 200 \<and>
   result_of (solve_challenge script_post a_url (a_client, ([], [unavailable]))) =
     Inl (AsyncClient_Exception ''Solver is unavailable: status_code = 500'') \<and>
   client_of (solve_challenge script_post a_url (a_client, ([], [unavailable]))) = a_client \<and>
   sr_status_code no_solution = 200 \<and>
   client_of (solve_challenge script_post a_url (a_client, ([], [no_solution]))) = a_client"
proof -
  have p1: "script_post ([], [unavailable]) (solver_url a_client @ ''/get_cookies'')
              (solver_request a_url a_client) = (Inr unavailable, ([], []))"
    by (simp add: script_post_def)
  have p2: "script_post ([], [no_solution]) (solver_url a_client @ ''/get_cookies'')
              (solver_request a_url a_client) = (Inr no_solution, ([], []))"
    by (simp add: script_post_def)
  have h1: "sr_status_code unavailable \<noteq> 200
              \<or> (\<exists>rj. sr_json unavailable = Some rj \<and> solution rj = None)"
    by (simp add: unavailable_def)
  have h2: "sr_status_code no_solution \<noteq> 200
              \<or> (\<exists>rj. sr_json no_solution = Some rj \<and> solution rj = None)"
    by (simp add: no_solution_def)
  have e: "result_of (solve_challenge script_post a_url (a_client, ([], [unavailable]))) =
             Inl (AsyncClient_Exception ''Solver is unavailable: status_code = 500'')"
    by code_simp
  note t1 = failed_solve_keeps_session [where solver_post = script_post
      and w = "([], [unavailable])" and c = a_client and url = a_url, OF p1 h1]
  note t2 = failed_solve_keeps_session [where solver_post = script_post
      and w = "([], [no_solution])" and c = a_client and url = a_url, OF p2 h2]
  show ?thesis
    using t1 t2 e by (simp add: unavailable_def no_solution_def)
qed

theorem failed_solve_keeps_session_counterexample:
  "result_of (solve_challenge script_post a_url (a_client, ([], [no_cookies_solution]))) =
     Inl (KeyError ''cookies'') \<and>
   user_agent a_client = default_user_agent \<and>
   user_agent (client_of (solve_challenge script_post a_url
     (a_client, ([], [no_cookies_solution])))) = ''UA2'' \<and>
   user_agent (client_of (solve_challenge script_post a_url
     (a_client, ([], [no_cookies_solution])))) \<noteq> user_agent a_client \<and>
   cookies (client_of (solve_challenge script_post a_url
     (a_client, ([], [no_cookies_solution])))) = cookies a_client \<and>
   result_of (solve_challenge script_post a_url (a_client, ([], [broken_cookie_solution]))) =
     Inl (KeyError ''value'') \<and>
   user_agent (client_of (solve_challenge script_post a_url
     (a_client, ([], [broken_cookie_solution])))) = ''UA2'' \<and>
   jar_lookup (cookies a_client) (''cf_clearance'', ''example.com'', ''/'') = None \<and>
   jar_lookup (cookies (client_of (solve_challenge script_post a_url
     (a_client, ([], [broken_cookie_solution]))))) (''cf_clearance'', ''example.com'', ''/'') =
     Some \<lparr>ck_name = ''cf_clearance'', ck_value = Some ''v1'', ck_domain = ''example.com'',
           ck_path = ''/'', ck_port = None, ck_secure = False, ck_expires = None\<rparr> \<and>
   jar_lookup (cookies (client_of (solve_challenge script_post a_url
     (a_client, ([], [broken_cookie_solution]))))) (''sid'', [], ''/'') = None"
  by code_simp

text \<open>
  C5. A response whose status is not 403, or whose content type does not start with
  \<open>text/html\<close>, or whose body is empty, is returned as it is by the attempt that received
  it, whatever its body and whatever the number \<open>n\<close> of attempts left; so is a 403 HTML
  response that matches neither the hard-block nor a challenge pattern. No solver call is
  made and no further request is sent.
\<close>

theorem passed_through:
  assumes "run_method w url (send_headers hs c) (cookies c) = (Inr r, j, w1)"
      and "r_status_code r \<noteq> 403 \<or> \<not> startswith (content_type r) ''text/html'' \<or> r_text r = []
           \<or> (\<not> unsolvable_block (lower (r_text r)) \<and> \<not> solvable_block (lower (r_text r)))"
  shows "request_loop (Suc n) solver_post run_method url solve_url hs (c, w) =
           (Inr r, (c\<lparr>cookies := j\<rparr>, w1),
            [Transport url (send_headers hs c) (cookies c) (Inr r) j])
         \<and> (classify r = OK \<or> classify r = UNRELATED_403)"
proof -
  have "classify r = OK \<or> classify r = UNRELATED_403"
    using assms(2) by (auto simp: classify_def inspected_def)
  then show ?thesis
    by (auto simp: request_loop_step [where run_method = run_method, OF assms(1)] Let_def)
qed

theorem passed_through_witness:
  "classify forbidden_page = UNRELATED_403 \<and> classify ok_page = OK \<and>
   r_status_code ok_page \<noteq> 403 \<and>
   request_loop (Suc 1) script_post script_run a_url None Map.empty
       (a_client, ([forbidden_page, challenge_page], [solved])) =
     (Inr forbidden_page, (a_client, ([challenge_page], [solved])),
      [Transport a_url (send_headers Map.empty a_client) (cookies a_client)
         (Inr forbidden_page) (cookies a_client)]) \<and>
   request_loop (Suc 0) script_post script_run a_url None Map.empty
       (a_client, ([ok_page], [])) =
     (Inr ok_page, (a_client, ([], [])),
      [Transport a_url (send_headers Map.empty a_client) (cookies a_client)
         (Inr ok_page) (cookies a_client)])"
proof -
  have c1: "classify forbidden_page = UNRELATED_403" and c2: "classify ok_page = OK"
    by code_simp+
  have h1: "script_run ([forbidden_page, challenge_page], [solved]) a_url
              (send_headers Map.empty a_client) (cookies a_client) =
            (Inr forbidden_page, cookies a_client, ([challenge_page], [solved]))"
    by (simp add: script_run_def)
  have h2: "r_status_code forbidden_page \<noteq> 403
            \<or> \<not> startswith (content_type forbidden_page) ''text/html''
            \<or> r_text forbidden_page = []
            \<or> (\<not> unsolvable_block (lower (r_text forbidden_page))
                \<and> \<not> solvable_block (lower (r_text forbidden_page)))"
    by code_simp
  have h3: "script_run ([ok_page], []) a_url
              (send_headers Map.empty a_client) (cookies a_client) =
            (Inr ok_page, cookies a_client, ([], []))"
    by (simp add: script_run_def)
  have s: "r_status_code ok_page \<noteq> 403"
    by (simp add: ok_page_def html_def)
  then have h4: "r_status_code ok_page \<noteq> 403
            \<or> \<not> startswith (content_type ok_page) ''text/html''
            \<or> r_text ok_page = []
            \<or> (\<not> unsolvable_block (lower (r_text ok_page))
                \<and> \<not> solvable_block (lower (r_text ok_page)))"
    by blast
  note t1 = passed_through [where run_method = script_run and solver_post = script_post
      and solve_url = None and n = 1, OF h1 h2]
  note t2 = passed_through [where run_method = script_run and solver_post = script_post
      and solve_url = None and n = 0, OF h3 h4]
  show ?thesis
    using c1 c2 s t1 t2 by simp
qed

text \<open>
  C2. A response with status 403, an HTML content type and a non-empty body whose
  lower-cased text contains \<open>access denied\<close> and a title element matching the
  access-denied pattern of the client, or contains \<open>ip banned\<close> and \<open>cloudflare\<close> and a
  title element matching the ip-banned pattern, makes the attempt that received it raise
  \<open>CloudFlareBlocked\<close> at once: the trace of that attempt is the one transport call, so
  there is no solver call and no retry, whatever the number \<open>n\<close> of attempts left.
\<close>

theorem hard_block_raises:
  assumes "run_method w url (send_headers hs c) (cookies c) = (Inr r, j, w1)"
      and "r_status_code r = 403"
      and "startswith (content_type r) ''text/html''"
      and "r_text r \<noteq> []"
      and "(contains ''access denied'' (lower (r_text r))
              \<and> re_search re_access_denied (lower (r_text r)))
           \<or> (contains ''ip banned'' (lower (r_text r)) \<and> contains ''cloudflare'' (lower (r_text r))
              \<and> re_search re_ip_banned (lower (r_text r)))"
  shows "request_loop (Suc n) solver_post run_method url solve_url hs (c, w) =
           (Inl (CloudFlareBlocked ''IP blocked by cloud flare''), (c\<lparr>cookies := j\<rparr>, w1),
            [Transport url (send_headers hs c) (cookies c) (Inr r) j])
         \<and> classify r = HARD_BLOCK"
proof -
  have "classify r = HARD_BLOCK"
    using assms(2-5) by (simp add: classify_def inspected_def unsolvable_block_def)
  then show ?thesis
    by (simp add: request_loop_step [where run_method = run_method, OF assms(1)] Let_def)
qed

theorem hard_block_raises_witness:
  "r_status_code blocked_page = 403 \<and> startswith (content_type blocked_page) ''text/html'' \<and>
   contains ''access denied'' (lower (r_text blocked_page)) \<and>
   re_search re_access_denied (lower (r_text blocked_page)) \<and>
   contains ''ip banned'' (lower (r_text banned_page)) \<and>
   contains ''cloudflare'' (lower (r_text banned_page)) \<and>
   re_search re_ip_banned (lower (r_text banned_page)) \<and>
   request_loop (Suc 1) script_post script_run a_url None Map.empty
       (a_client, ([blocked_page, ok_page], [solved])) =
     (Inl (CloudFlareBlocked ''IP blocked by cloud flare''),
      (a_client, ([ok_page], [solved])),
      [Transport a_url (send_headers Map.empty a_client) (cookies a_client)
         (Inr blocked_page) (cookies a_client)]) \<and>
   request_loop (Suc 0) script_post script_run a_url None Map.empty
       (a_client, ([banned_page], [solved])) =
     (Inl (CloudFlareBlocked ''IP blocked by cloud flare''),
      (a_client, ([], [solved])),
      [Transport a_url (send_headers Map.empty a_client) (cookies a_client)
         (Inr banned_page) (cookies a_client)])"
proof -
  have a1: "r_status_code blocked_page = 403" and a2: "r_text blocked_page \<noteq> []"
    and b1: "r_status_code banned_page = 403" and b2: "r_text banned_page \<noteq> []"
    by (simp_all add: blocked_page_def banned_page_def html_def)
  have a3: "startswith (content_type blocked_page) ''text/html''"
    and b3: "startswith (content_type banned_page) ''text/html''"
    by code_simp+
  have a4: "contains ''access denied'' (lower (r_text blocked_page))"
    and a5: "re_search re_access_denied (lower (r_text blocked_page))"
    and b4: "contains ''ip banned'' (lower (r_text banned_page))"
    and b5: "contains ''cloudflare'' (lower (r_text banned_page))"
    and b6: "re_search re_ip_banned (lower (r_text banned_page))"
    by code_simp+
  have h1: "script_run ([blocked_page, ok_page], [solved]) a_url
              (send_headers Map.empty a_client) (cookies a_client) =
            (Inr blocked_page, cookies a_client, ([ok_page], [solved]))"
    by (simp add: script_run_def)
  have h2: "script_run ([banned_page], [solved]) a_url
              (send_headers Map.empty a_client) (cookies a_client) =
            (Inr banned_page, cookies a_client, ([], [solved]))"
    by (simp add: script_run_def)
  note t1 = hard_block_raises [where run_method = script_run and solver_post = script_post
      and solve_url = None and n = 1, OF h1 a1 a3 a2 disjI1 [OF conjI [OF a4 a5]]]
  note t2 = hard_block_raises [where run_method = script_run and solver_post = script_post
      and solve_url = None and n = 0, OF h2 b1 b3 b2 disjI2 [OF conjI [OF b4 conjI [OF b5 b6]]]]
  show ?thesis
    using a1 a3 a4 a5 b4 b5 b6 t1 t2 by simp
qed

section \<open>The jar after a solve\<close>

lemma jar_lookup_set_cookie:
  "jar_lookup (set_cookie ck j) =
     (jar_lookup j)((ck_name ck, ck_domain ck, ck_path ck) \<mapsto> ck)"
proof (rule ext)
  fix k :: "string \<times> string \<times> string"
  obtain nm dm pt where k: "k = (nm, dm, pt)"
    by (cases k)
  show "jar_lookup (set_cookie ck j) k =
          ((jar_lookup j)((ck_name ck, ck_domain ck, ck_path ck) \<mapsto> ck)) k"
  proof (cases "dm = ck_domain ck")
    case False
    then show ?thesis
      by (simp add: k jar_lookup_def set_cookie_def AList.update_conv' Let_def)
  next
    case dm: True
    show ?thesis
    proof (cases "pt = ck_path ck")
      case False
      then show ?thesis
        using dm
        by (simp add: k jar_lookup_def set_cookie_def AList.update_conv' Let_def
                 split: option.splits)
    next
      case True
      then show ?thesis
        using dm
        by (simp add: k jar_lookup_def set_cookie_def AList.update_conv' Let_def
                 split: option.splits)
    qed
  qed
qed

lemma jar_lookup_cookies_set:
  "jar_lookup (cookies_set nm v dm pt j) =
     (jar_lookup j)((nm, dm, pt) \<mapsto>
        \<lparr>ck_name = nm, ck_value = Some v, ck_domain = dm, ck_path = pt,
         ck_port = None, ck_secure = False, ck_expires = None\<rparr>)"
  by (simp add: cookies_set_def jar_lookup_set_cookie)

lemma jar_lookup_set_solver_cookies:
  "list_all complete_cookie cs \<Longrightarrow>
     jar_lookup (snd (set_solver_cookies cs j)) =
       jar_lookup j ++ map_of (rev (map (\<lambda>c. (cookie_key c, stored_cookie c)) cs))"
proof (induction cs arbitrary: j)
  case Nil
  then show ?case by simp
next
  case (Cons c cs)
  then obtain nm v where nm: "sc_name c = Some nm" and v: "sc_value c = Some v"
    by (auto simp: complete_cookie_def)
  have "jar_lookup (cookies_set nm v (fst (snd (cookie_key c))) (snd (snd (cookie_key c))) j) =
          (jar_lookup j)(cookie_key c \<mapsto> stored_cookie c)"
    by (simp add: jar_lookup_cookies_set cookie_key_def stored_cookie_def nm v)
  with Cons show ?case
    by (simp add: nm v cookie_key_def map_add_upd_left)
qed

lemma jar_lookup_in_jar:
  "jar_lookup j k = Some ck \<Longrightarrow> ck \<in> set (jar_iter j)"
  by (force simp: jar_lookup_def jar_iter_def split: prod.splits option.splits dest!: map_of_SomeD)

lemma solve_challenge_solution:
  assumes "solver_post w (solver_url c @ ''/get_cookies'') (solver_request url c) = (Inr sr, w')"
      and "sr_status_code sr = 200"
      and "sr_json sr = Some rj"
      and "solution rj = Some sol"
      and "userAgent sol = Some ua"
      and "sol_cookies sol = Some cs"
  shows "solve_challenge solver_post url (c, w) =
           (fst (set_solver_cookies cs (cookies c)),
            (c\<lparr>user_agent := ua, cookies := snd (set_solver_cookies cs (cookies c))\<rparr>, w'),
            [Solver (solver_url c @ ''/get_cookies'') (solver_request url c) (Inr sr)])"
  using assms by (simp add: solve_challenge_def Let_def split: prod.splits)

text \<open>
  C4. After a solve that succeeds (the solver answers 200 with a \<open>solution\<close> that holds
  \<open>userAgent\<close> and \<open>cookies\<close>, every cookie with \<open>name\<close> and \<open>value\<close>) the user-agent of the
  client is the one the solver reported, every cookie of the solver's list is in the jar
  under the key (name, domain or the empty string, path or \<open>/\<close>), with the value given
  when the keys of the list are distinct, and the jar holds under every other key what it
  held before; no key of the jar is lost.
\<close>

theorem solution_applied:
  assumes "solver_post w (solver_url c @ ''/get_cookies'') (solver_request url c) = (Inr sr, w')"
      and "sr_status_code sr = 200"
      and "sr_json sr = Some rj"
      and "solution rj = Some sol"
      and "userAgent sol = Some ua"
      and "sol_cookies sol = Some cs"
      and "list_all complete_cookie cs"
  shows "result_of (solve_challenge solver_post url (c, w)) = Inr ()
         \<and> user_agent (client_of (solve_challenge solver_post url (c, w))) = ua
         \<and> (\<forall>sc \<in> set cs.
               \<exists>ck \<in> set (jar_iter (cookies (client_of (solve_challenge solver_post url (c, w))))).
                 jar_lookup (cookies (client_of (solve_challenge solver_post url (c, w))))
                   (the (sc_name sc),
                    (case sc_domain sc of None \<Rightarrow> [] | Some d \<Rightarrow> d),
                    (case sc_path sc of None \<Rightarrow> ''/'' | Some p \<Rightarrow> p)) = Some ck
                 \<and> ck_name ck = the (sc_name sc)
                 \<and> ck_domain ck = (case sc_domain sc of None \<Rightarrow> [] | Some d \<Rightarrow> d)
                 \<and> ck_path ck = (case sc_path sc of None \<Rightarrow> ''/'' | Some p \<Rightarrow> p)
                 \<and> (distinct (map cookie_key cs) \<longrightarrow> ck_value ck = sc_value sc))
         \<and> (\<forall>k. k \<notin> cookie_key ` set cs \<longrightarrow>
               jar_lookup (cookies (client_of (solve_challenge solver_post url (c, w)))) k =
               jar_lookup (cookies c) k)
         \<and> (\<forall>k. jar_lookup (cookies c) k \<noteq> None \<longrightarrow>
               jar_lookup (cookies (client_of (solve_challenge solver_post url (c, w)))) k \<noteq> None)"
proof -
  let ?c' = "client_of (solve_challenge solver_post url (c, w))"
  let ?new = "map_of (rev (map (\<lambda>c. (cookie_key c, stored_cookie c)) cs))"
  note run = solve_challenge_solution [where solver_post = solver_post, OF assms(1-6)]
  have res: "result_of (solve_challenge solver_post url (c, w)) = Inr ()"
    using run set_solver_cookies_complete [OF assms(7)] by simp
  have ua: "user_agent ?c' = ua"
    using run by simp
  have jar: "jar_lookup (cookies ?c') = jar_lookup (cookies c) ++ ?new"
    using run jar_lookup_set_solver_cookies [OF assms(7)] by simp
  have dom_new: "dom ?new = cookie_key ` set cs"
    by (force simp: dom_map_of_conv_image_fst)
  have listed: "\<exists>ck \<in> set (jar_iter (cookies ?c')).
                 jar_lookup (cookies ?c') (cookie_key sc) = Some ck
                 \<and> ck_name ck = fst (cookie_key sc)
                 \<and> ck_domain ck = fst (snd (cookie_key sc))
                 \<and> ck_path ck = snd (snd (cookie_key sc))
                 \<and> (distinct (map cookie_key cs) \<longrightarrow> ck_value ck = sc_value sc)"
    if sc: "sc \<in> set cs" for sc
  proof -
    have "cookie_key sc \<in> dom ?new"
      using sc dom_new by blast
    then obtain ck where ck: "?new (cookie_key sc) = Some ck"
      by blast
    then have "(cookie_key sc, ck) \<in> set (rev (map (\<lambda>c. (cookie_key c, stored_cookie c)) cs))"
      by (rule map_of_SomeD)
    then obtain sc' where sc': "sc' \<in> set cs" "cookie_key sc' = cookie_key sc"
        "ck = stored_cookie sc'"
      by auto
    have look: "jar_lookup (cookies ?c') (cookie_key sc) = Some ck"
      using jar ck by (simp add: map_add_Some_iff)
    have "ck_value ck = sc_value sc" if d: "distinct (map cookie_key cs)"
    proof -
      have "distinct (map fst (rev (map (\<lambda>c. (cookie_key c, stored_cookie c)) cs)))"
        using d by (simp add: rev_map [symmetric] comp_def)
      moreover have "(cookie_key sc, stored_cookie sc)
                       \<in> set (rev (map (\<lambda>c. (cookie_key c, stored_cookie c)) cs))"
        using sc by auto
      ultimately have "?new (cookie_key sc) = Some (stored_cookie sc)"
        by (rule map_of_is_SomeI)
      with ck show ?thesis
        by (simp add: stored_cookie_def)
    qed
    with look sc' jar_lookup_in_jar [OF look] show ?thesis
      by (auto simp: stored_cookie_def)
  qed
  have others: "jar_lookup (cookies ?c') k = jar_lookup (cookies c) k"
    if "k \<notin> cookie_key ` set cs" for k
    using that jar dom_new by (simp add: map_add_dom_app_simps)
  have kept: "jar_lookup (cookies ?c') k \<noteq> None" if "jar_lookup (cookies c) k \<noteq> None" for k
    using that jar by (auto simp: map_add_def split: option.splits)
  show ?thesis
    using res ua listed others kept by (simp add: cookie_key_def)
qed

theorem solution_applied_witness:
  "sr_status_code solved = 200 \<and> list_all complete_cookie [clearance, bare_cookie] \<and>
   result_of (solve_challenge script_post a_url (a_client, ([], [solved]))) = Inr () \<and>
   user_agent (client_of (solve_challenge script_post a_url (a_client, ([], [solved])))) = ''UA2'' \<and>
   jar_lookup (cookies (client_of (solve_challenge script_post a_url (a_client, ([], [solved])))))
     (''cf_clearance'', ''example.com'', ''/'') =
     Some \<lparr>ck_name = ''cf_clearance'', ck_value = Some ''v1'', ck_domain = ''example.com'',
           ck_path = ''/'', ck_port = None, ck_secure = False, ck_expires = None\<rparr> \<and>
   jar_lookup (cookies (client_of (solve_challenge script_post a_url (a_client, ([], [solved])))))
     (''sid'', [], ''/'') =
     Some \<lparr>ck_name = ''sid'', ck_value = Some ''7'', ck_domain = [],
           ck_path = ''/'', ck_port = None, ck_secure = False, ck_expires = None\<rparr> \<and>
   jar_lookup (cookies (client_of (solve_challenge script_post a_url (a_client, ([], [solved])))))
     (''session'', ''example.com'', ''/'') = Some session_cookie"
proof -
  let ?sol = "\<lparr>userAgent = Some ''UA2'', sol_cookies = Some [clearance, bare_cookie]\<rparr>"
  let ?rj = "\<lparr>solution = Some ?sol, other_members = [(''status'', JStr ''ok'')]\<rparr>"
  have h1: "script_post ([], [solved]) (solver_url a_client @ ''/get_cookies'')
              (solver_request a_url a_client) = (Inr solved, ([], []))"
    by (simp add: script_post_def)
  have h2: "sr_status_code solved = 200" and h3: "sr_json solved = Some ?rj"
    by (simp_all add: solved_def)
  have h4: "solution ?rj = Some ?sol" and h5: "userAgent ?sol = Some ''UA2''"
    and h6: "sol_cookies ?sol = Some [clearance, bare_cookie]"
    by simp_all
  have h7: "list_all complete_cookie [clearance, bare_cookie]"
    by code_simp
  note t = solution_applied [where solver_post = script_post and w = "([], [solved])"
      and c = a_client and url = a_url, OF h1 h2 h3 h4 h5 h6 h7]
  have res: "result_of (solve_challenge script_post a_url (a_client, ([], [solved]))) = Inr ()"
    and ua: "user_agent (client_of (solve_challenge script_post a_url (a_client, ([], [solved]))))
               = ''UA2''"
    using t by blast+
  have k: "(''session'', ''example.com'', ''/'') \<notin> cookie_key ` set [clearance, bare_cookie]"
    by (simp add: cookie_key_def clearance_def bare_cookie_def)
  have "jar_lookup (cookies a_client) (''session'', ''example.com'', ''/'') = Some session_cookie"
    by code_simp
  with t k have old:
    "jar_lookup (cookies (client_of (solve_challenge script_post a_url (a_client, ([], [solved])))))
       (''session'', ''example.com'', ''/'') = Some session_cookie"
    by metis
  have new1:
    "jar_lookup (cookies (client_of (solve_challenge script_post a_url (a_client, ([], [solved])))))
       (''cf_clearance'', ''example.com'', ''/'') =
     Some \<lparr>ck_name = ''cf_clearance'', ck_value = Some ''v1'', ck_domain = ''example.com'',
           ck_path = ''/'', ck_port = None, ck_secure = False, ck_expires = None\<rparr>"
    by code_simp
  have new2:
    "jar_lookup (cookies (client_of (solve_challenge script_post a_url (a_client, ([], [solved])))))
       (''sid'', [], ''/'') =
     Some \<lparr>ck_name = ''sid'', ck_value = Some ''7'', ck_domain = [],
           ck_path = ''/'', ck_port = None, ck_secure = False, ck_expires = None\<rparr>"
    by code_simp
  show ?thesis
    using h2 h7 res ua new1 new2 old by (intro conjI)
qed

section \<open>The trace of a request call\<close>

lemma set_solver_cookies_returns:
  "fst (set_solver_cookies cs j) = Inr u \<Longrightarrow> list_all complete_cookie cs"
  by (induction cs arbitrary: j) (auto simp: complete_cookie_def split: option.splits)

lemma set_solver_cookies_returns':
  "set_solver_cookies cs j = (Inr u, j') \<Longrightarrow> list_all complete_cookie cs"
  using set_solver_cookies_returns [of cs j u] by simp

lemma solve_challenge_returns:
  assumes "solver_post w (solver_url c @ ''/get_cookies'') (solver_request url c) = (out, w')"
      and "result_of (solve_challenge solver_post url (c, w)) = Inr u"
  shows "\<exists>sr. out = Inr sr \<and> complete_solution sr"
  using assms
  by (auto simp: solve_challenge_def complete_solution_def Let_def
           split: sum.splits option.splits prod.splits if_splits
           dest: set_solver_cookies_returns')

lemma solve_challenge_shape:
  obtains x c2 w2 out where
    "solve_challenge solver_post url (c, w) =
       (x, (c2, w2), [Solver (solver_url c @ ''/get_cookies'') (solver_request url c) out])"
    and "solver_post w (solver_url c @ ''/get_cookies'') (solver_request url c) = (out, w2)"
    and "user_agent c2 = ua_after (user_agent c) out"
    and "solver_url c2 = solver_url c"
    and "proxy c2 = proxy c"
proof -
  obtain x c2 w2 evs where r: "solve_challenge solver_post url (c, w) = (x, (c2, w2), evs)"
    by (metis prod.exhaust)
  obtain out w' where p:
      "solver_post w (solver_url c @ ''/get_cookies'') (solver_request url c) = (out, w')"
    by (metis prod.exhaust)
  have "evs = [Solver (solver_url c @ ''/get_cookies'') (solver_request url c) out]"
    using solve_challenge_trace [of solver_post url c w] r p by simp
  moreover have "w2 = w'"
    using solve_challenge_world [of solver_post url c w] r p by simp
  moreover have "user_agent c2 = ua_after (user_agent c) out"
    using solve_challenge_user_agent [of solver_post url c w] r p by simp
  moreover have "solver_url c2 = solver_url c" "proxy c2 = proxy c"
    using solve_challenge_config [of solver_post url c w] r by simp_all
  ultimately show ?thesis
    using that r p by blast
qed

lemma send_headers_merged: "send_headers hs c = merged_headers hs (user_agent c)"
  by (rule ext) (simp add: send_headers_def merged_headers_def)

lemma solver_request_expected: "solver_request url c = expected_request url (cookies c) (proxy c)"
  by (simp add: solver_request_def expected_request_def cookie_json_def)

lemma headers_sent_ok_loop:
  "headers_sent_ok hs (user_agent c)
     (trace_of (request_loop n solver_post run_method url solve_url hs (c, w)))"
proof (induction n arbitrary: c w)
  case 0
  show ?case by (simp add: request_loop.simps)
next
  case (Suc n)
  obtain outcome j w1 where run: "run_method w url (send_headers hs c) (cookies c) = (outcome, j, w1)"
    by (metis prod.exhaust)
  show ?case
  proof (cases outcome)
    case (Inl e)
    then show ?thesis
      using run
      by (simp add: request_loop_error [where run_method = run_method] send_headers_merged)
  next
    case (Inr r)
    note step = request_loop_step [where run_method = run_method, OF run [unfolded Inr]]
    show ?thesis
    proof (cases "classify r = CHALLENGE")
      case False
      then show ?thesis
        by (cases "classify r") (simp_all add: step Let_def send_headers_merged)
    next
      case True
      obtain x c2 w2 out where
        solve: "solve_challenge solver_post (solve_target url solve_url) (c\<lparr>cookies := j\<rparr>, w1) =
           (x, (c2, w2), [Solver (solver_url (c\<lparr>cookies := j\<rparr>) @ ''/get_cookies'')
                            (solver_request (solve_target url solve_url) (c\<lparr>cookies := j\<rparr>)) out])"
        and ua: "user_agent c2 = ua_after (user_agent (c\<lparr>cookies := j\<rparr>)) out"
        by (rule solve_challenge_shape)
      show ?thesis
      proof (cases x)
        case (Inl e)
        then show ?thesis
          using True solve by (simp add: step Let_def send_headers_merged)
      next
        case (Inr u)
        obtain res s3 evs' where
          rec: "request_loop n solver_post run_method url solve_url hs (c2, w2) = (res, s3, evs')"
          by (metis prod.exhaust)
        then have "headers_sent_ok hs (user_agent c2) evs'"
          using Suc.IH [of c2 w2] by simp
        then show ?thesis
          using True solve ua Inr rec
          by (simp add: step Let_def send_headers_merged)
      qed
    qed
  qed
qed

lemma solve_requests_ok_loop:
  "solve_requests_ok (solver_url c @ ''/get_cookies'') (solve_target url solve_url) (proxy c)
     (trace_of (request_loop n solver_post run_method url solve_url hs (c, w)))"
proof (induction n arbitrary: c w)
  case 0
  show ?case by (simp add: request_loop.simps)
next
  case (Suc n)
  obtain outcome j w1 where run: "run_method w url (send_headers hs c) (cookies c) = (outcome, j, w1)"
    by (metis prod.exhaust)
  show ?case
  proof (cases outcome)
    case (Inl e)
    then show ?thesis
      using run by (simp add: request_loop_error [where run_method = run_method])
  next
    case (Inr r)
    note step = request_loop_step [where run_method = run_method, OF run [unfolded Inr]]
    show ?thesis
    proof (cases "classify r = CHALLENGE")
      case False
      then show ?thesis
        by (cases "classify r") (simp_all add: step Let_def)
    next
      case True
      obtain x c2 w2 out where
        solve: "solve_challenge solver_post (solve_target url solve_url) (c\<lparr>cookies := j\<rparr>, w1) =
           (x, (c2, w2), [Solver (solver_url (c\<lparr>cookies := j\<rparr>) @ ''/get_cookies'')
                            (solver_request (solve_target url solve_url) (c\<lparr>cookies := j\<rparr>)) out])"
        and cfg: "solver_url c2 = solver_url (c\<lparr>cookies := j\<rparr>)" "proxy c2 = proxy (c\<lparr>cookies := j\<rparr>)"
        by (rule solve_challenge_shape)
      show ?thesis
      proof (cases x)
        case (Inl e)
        then show ?thesis
          using True solve by (simp add: step Let_def solver_request_expected)
      next
        case (Inr u)
        obtain res s3 evs' where
          rec: "request_loop n solver_post run_method url solve_url hs (c2, w2) = (res, s3, evs')"
          by (metis prod.exhaust)
        then have "solve_requests_ok (solver_url c2 @ ''/get_cookies'')
                     (solve_target url solve_url) (proxy c2) evs'"
          using Suc.IH [of c2 w2] by simp
        then show ?thesis
          using True solve cfg Inr rec by (simp add: step Let_def solver_request_expected)
      qed
    qed
  qed
qed

lemma retries_exceeded_loop:
  assumes "list_all challenged_and_solved
             (trace_of (request_loop n solver_post run_method url solve_url hs (c, w)))"
  shows "result_of (request_loop n solver_post run_method url solve_url hs (c, w)) =
           Inl (AsyncClient_Exception retries_message)
         \<and> map is_solver (trace_of (request_loop n solver_post run_method url solve_url hs (c, w))) =
           concat (replicate n [False, True])"
  using assms
proof (induction n arbitrary: c w)
  case 0
  show ?case by (simp add: request_loop.simps)
next
  case (Suc n)
  obtain outcome j w1 where run: "run_method w url (send_headers hs c) (cookies c) = (outcome, j, w1)"
    by (metis prod.exhaust)
  show ?case
  proof (cases outcome)
    case (Inl e)
    then show ?thesis
      using run Suc.prems by (simp add: request_loop_error [where run_method = run_method])
  next
    case (Inr r)
    note step = request_loop_step [where run_method = run_method, OF run [unfolded Inr]]
    show ?thesis
    proof (cases "classify r = CHALLENGE")
      case False
      then show ?thesis
        using Suc.prems by (cases "classify r") (simp_all add: step Let_def)
    next
      case True
      obtain x c2 w2 out where
        solve: "solve_challenge solver_post (solve_target url solve_url) (c\<lparr>cookies := j\<rparr>, w1) =
           (x, (c2, w2), [Solver (solver_url (c\<lparr>cookies := j\<rparr>) @ ''/get_cookies'')
                            (solver_request (solve_target url solve_url) (c\<lparr>cookies := j\<rparr>)) out])"
        and post: "solver_post w1 (solver_url (c\<lparr>cookies := j\<rparr>) @ ''/get_cookies'')
                     (solver_request (solve_target url solve_url) (c\<lparr>cookies := j\<rparr>)) = (out, w2)"
        by (rule solve_challenge_shape)
      show ?thesis
      proof (cases x)
        case (Inl e)
        then have good: "\<exists>sr. out = Inr sr \<and> complete_solution sr"
          using Suc.prems True solve by (auto simp: step Let_def split: sum.splits)
        then obtain sr where "out = Inr sr" "complete_solution sr"
          by blast
        then have "result_of (solve_challenge solver_post (solve_target url solve_url)
                     (c\<lparr>cookies := j\<rparr>, w1)) = Inr ()"
          using solve_challenge_complete [where solver_post = solver_post] post by simp
        then show ?thesis
          using solve Inl by simp
      next
        case (Inr u)
        obtain res s3 evs' where
          rec: "request_loop n solver_post run_method url solve_url hs (c2, w2) = (res, s3, evs')"
          by (metis prod.exhaust)
        have "list_all challenged_and_solved evs'"
          using Suc.prems True solve Inr rec by (simp add: step Let_def)
        then have "res = Inl (AsyncClient_Exception retries_message)
                   \<and> map is_solver evs' = concat (replicate n [False, True])"
          using Suc.IH [of c2 w2] rec by simp
        then show ?thesis
          using True solve Inr rec by (simp add: step Let_def)
      qed
    qed
  qed
qed

text \<open>
  C1, as amended. When every attempt of a request call comes back as a challenge and
  every solver call is answered with a complete solution, the call makes two attempts,
  each followed by exactly one solver call, and then raises the exception the
  specification calls \<open>ChallengeRetriesExceeded\<close> (\<open>AsyncClient.Exception\<close> with the message
  below), whose message names the maximum, 2.
\<close>

theorem retries_exceeded:
  assumes "list_all challenged_and_solved
             (trace_of (request solver_post run_method url solve_url hs (c, w)))"
  shows "result_of (request solver_post run_method url solve_url hs (c, w)) =
           Inl (AsyncClient_Exception
                  ''Can't solve challenge: challenge got 2 times ... (max tries exceded)'')
         \<and> map is_solver (trace_of (request solver_post run_method url solve_url hs (c, w))) =
           [False, True, False, True]
         \<and> str_int (int max_tries) = ''2''
         \<and> contains (str_int (int max_tries))
             ''Can't solve challenge: challenge got 2 times ... (max tries exceded)''"
proof -
  have two: "str_int (int max_tries) = ''2''"
    by (simp add: max_tries_def str_int_def str_digits.simps digit_def)
  then have msg: "retries_message =
      ''Can't solve challenge: challenge got 2 times ... (max tries exceded)''"
    by (simp add: retries_message_def)
  have "contains ''2'' (''Can't solve challenge: challenge got '' @ ''2'' @
          '' times ... (max tries exceded)'')"
    by (rule contains_mid)
  then have named: "contains (str_int (int max_tries))
      ''Can't solve challenge: challenge got 2 times ... (max tries exceded)''"
    using two by simp
  have rep: "concat (replicate max_tries [False, True]) = [False, True, False, True]"
    by (simp add: max_tries_def numeral_2_eq_2)
  show ?thesis
    using retries_exceeded_loop [where solver_post = solver_post and run_method = run_method
        and n = max_tries and url = url and solve_url = solve_url and hs = hs and c = c and w = w]
      assms two named
    unfolding request_def msg rep by blast
qed

theorem retries_exceeded_witness:
  "list_all challenged_and_solved
     (trace_of (request script_post script_run a_url None Map.empty
        (a_client, ([challenge_page, challenge_page], [solved, solved])))) \<and>
   result_of (request script_post script_run a_url None Map.empty
        (a_client, ([challenge_page, challenge_page], [solved, solved]))) =
     Inl (AsyncClient_Exception
            ''Can't solve challenge: challenge got 2 times ... (max tries exceded)'') \<and>
   map is_solver (trace_of (request script_post script_run a_url None Map.empty
        (a_client, ([challenge_page, challenge_page], [solved, solved])))) =
     [False, True, False, True]"
proof -
  have h: "list_all challenged_and_solved
     (trace_of (request script_post script_run a_url None Map.empty
        (a_client, ([challenge_page, challenge_page], [solved, solved]))))"
    by code_simp
  show ?thesis
    using h retries_exceeded [OF h] by blast
qed

theorem retries_exceeded_counterexample:
  "attempt_classes (trace_of (request script_post script_run a_url None Map.empty
        (a_client, ([challenge_page, challenge_page], [solved, unavailable])))) =
     [CHALLENGE, CHALLENGE] \<and>
   map is_solver (trace_of (request script_post script_run a_url None Map.empty
        (a_client, ([challenge_page, challenge_page], [solved, unavailable])))) =
     [False, True, False, True] \<and>
   result_of (request script_post script_run a_url None Map.empty
        (a_client, ([challenge_page, challenge_page], [solved, unavailable]))) =
     Inl (AsyncClient_Exception ''Solver is unavailable: status_code = 500'') \<and>
   result_of (request script_post script_run a_url None Map.empty
        (a_client, ([challenge_page, challenge_page], [solved, unavailable]))) \<noteq>
     Inl (AsyncClient_Exception retries_message) \<and>
   \<not> contains (str_int (int max_tries)) ''Solver is unavailable: status_code = 500''"
  by code_simp

text \<open>
  C9. On every attempt the headers handed to the transport are the caller's headers with
  \<open>user-agent\<close> set to the user-agent the session has at that moment (the initial one,
  then the one left by the latest solver call) and \<open>cache-control\<close> set to \<open>no-cache\<close>.
  The two session values win over the caller's entries for these keys, and every other
  entry of the caller is passed on as it is. This holds for the loop with any number \<open>n\<close>
  of attempts, hence for the request call.
\<close>

theorem session_headers_sent:
  "headers_sent_ok hs (user_agent c)
     (trace_of (request_loop n solver_post run_method url solve_url hs (c, w)))
   \<and> headers_sent_ok hs (user_agent c)
     (trace_of (request solver_post run_method url solve_url hs (c, w)))
   \<and> merged_headers hs ua ''user-agent'' = Some ua
   \<and> merged_headers hs ua ''cache-control'' = Some ''no-cache''
   \<and> (\<forall>k. k \<noteq> ''user-agent'' \<and> k \<noteq> ''cache-control'' \<longrightarrow> merged_headers hs ua k = hs k)"
  using headers_sent_ok_loop [of hs c n solver_post run_method url solve_url w]
    headers_sent_ok_loop [of hs c max_tries solver_post run_method url solve_url w]
  by (simp add: request_def merged_headers_def)

theorem session_headers_sent_witness:
  "headers_sent_ok [''accept'' \<mapsto> ''text/html'', ''user-agent'' \<mapsto> ''curl/8'']
     (user_agent a_client)
     (trace_of (request script_post script_run a_url None
        [''accept'' \<mapsto> ''text/html'', ''user-agent'' \<mapsto> ''curl/8'']
        (a_client, ([challenge_page, ok_page], [solved])))) \<and>
   map (\<lambda>h. (h ''user-agent'', h ''cache-control'', h ''accept''))
     (sent_headers (trace_of (request script_post script_run a_url None
        [''accept'' \<mapsto> ''text/html'', ''user-agent'' \<mapsto> ''curl/8'']
        (a_client, ([challenge_page, ok_page], [solved]))))) =
     [(Some default_user_agent, Some ''no-cache'', Some ''text/html''),
      (Some ''UA2'', Some ''no-cache'', Some ''text/html'')] \<and>
   merged_headers [''accept'' \<mapsto> ''text/html'', ''user-agent'' \<mapsto> ''curl/8''] ''UA2'' ''accept'' =
     Some ''text/html''"
proof -
  note t = session_headers_sent [where hs = "[''accept'' \<mapsto> ''text/html'', ''user-agent'' \<mapsto> ''curl/8'']"
      and c = a_client and solver_post = script_post and run_method = script_run and url = a_url
      and solve_url = None and w = "([challenge_page, ok_page], [solved])" and ua = "''UA2''"
      and n = 2]
  have a: "headers_sent_ok [''accept'' \<mapsto> ''text/html'', ''user-agent'' \<mapsto> ''curl/8'']
     (user_agent a_client)
     (trace_of (request script_post script_run a_url None
        [''accept'' \<mapsto> ''text/html'', ''user-agent'' \<mapsto> ''curl/8'']
        (a_client, ([challenge_page, ok_page], [solved]))))"
    by (rule t [THEN conjunct2, THEN conjunct1])
  have b: "merged_headers [''accept'' \<mapsto> ''text/html'', ''user-agent'' \<mapsto> ''curl/8'']
       ''UA2'' ''accept'' = Some ''text/html''"
    using t [THEN conjunct2, THEN conjunct2, THEN conjunct2, THEN conjunct2, rule_format,
        of "''accept''"]
    by simp
  have c: "map (\<lambda>h. (h ''user-agent'', h ''cache-control'', h ''accept''))
     (sent_headers (trace_of (request script_post script_run a_url None
        [''accept'' \<mapsto> ''text/html'', ''user-agent'' \<mapsto> ''curl/8'']
        (a_client, ([challenge_page, ok_page], [solved]))))) =
     [(Some default_user_agent, Some ''no-cache'', Some ''text/html''),
      (Some ''UA2'', Some ''no-cache'', Some ''text/html'')]"
    by code_simp
  show ?thesis
    using a b c by simp
qed

text \<open>
  C6. Every solve request goes to \<open>/get_cookies\<close> under the solver's URL and holds
  \<open>maxTimeout\<close> 60000, as \<open>url\<close> the \<open>solve_url\<close> of the caller when one was given (\<open>None\<close>
  and the empty string both count as not given) and the URL of the request otherwise, as
  \<open>cookies\<close> one entry with name, value, domain, path, port, secure and expires for
  every cookie the jar holds at that moment, in the order of the jar, and as \<open>proxy\<close> the
  proxy the client was configured with, or null. Within a request call the jar of a solve
  is the jar as the preceding transport call left it.
\<close>

theorem solve_request_contents:
  "trace_of (solve_challenge solver_post target (c, w)) =
     [Solver (solver_url c @ ''/get_cookies'') (expected_request target (cookies c) (proxy c))
        (fst (solver_post w (solver_url c @ ''/get_cookies'')
                (expected_request target (cookies c) (proxy c))))]
   \<and> solve_requests_ok (solver_url c @ ''/get_cookies'') (solve_target url solve_url) (proxy c)
       (trace_of (request solver_post run_method url solve_url hs (c, w)))
   \<and> solve_target url None = url
   \<and> solve_target url (Some []) = url
   \<and> (u \<noteq> [] \<longrightarrow> solve_target url (Some u) = u)"
  using solve_challenge_trace [of solver_post target c w]
    solve_requests_ok_loop [of c url solve_url max_tries solver_post run_method hs w]
  by (simp add: request_def solver_request_expected solve_target_def)

theorem solve_request_contents_witness:
  "solver_requests (trace_of (request script_post script_run a_url (Some ''https://example.com/b'')
        Map.empty (a_client, ([challenge_page, ok_page], [solved])))) =
     [(''http://solver:8080/get_cookies'',
       JObj [(''maxTimeout'', JNum 60000),
             (''url'', JStr ''https://example.com/b''),
             (''cookies'',
              JArr [JObj [(''name'', JStr ''session''), (''value'', JStr ''abc''),
                          (''domain'', JStr ''example.com''), (''path'', JStr ''/''),
                          (''port'', JNull), (''secure'', JBool True),
                          (''expires'', JNum 1900000000)]]),
             (''proxy'', JNull)])] \<and>
   solve_requests_ok ''http://solver:8080/get_cookies'' ''https://example.com/b'' None
     (trace_of (request script_post script_run a_url (Some ''https://example.com/b'')
        Map.empty (a_client, ([challenge_page, ok_page], [solved]))))"
proof -
  have n: "''https://example.com/b'' \<noteq> []"
    by simp
  note t = solve_request_contents [where c = a_client and url = a_url
      and solve_url = "Some ''https://example.com/b''" and u = "''https://example.com/b''"
      and solver_post = script_post and run_method = script_run and hs = Map.empty
      and w = "([challenge_page, ok_page], [solved])" and target = a_url]
  have tg: "solve_target a_url (Some ''https://example.com/b'') = ''https://example.com/b''"
    using t n by blast
  have ok: "solve_requests_ok (solver_url a_client @ ''/get_cookies'')
       (solve_target a_url (Some ''https://example.com/b'')) (proxy a_client)
       (trace_of (request script_post script_run a_url (Some ''https://example.com/b'')
          Map.empty (a_client, ([challenge_page, ok_page], [solved]))))"
    using t by blast
  have cfg: "solver_url a_client @ ''/get_cookies'' = ''http://solver:8080/get_cookies''"
      "proxy a_client = None"
    by (simp_all add: a_client_def)
  have r: "solver_requests (trace_of (request script_post script_run a_url (Some ''https://example.com/b'')
        Map.empty (a_client, ([challenge_page, ok_page], [solved])))) =
     [(''http://solver:8080/get_cookies'',
       JObj [(''maxTimeout'', JNum 60000),
             (''url'', JStr ''https://example.com/b''),
             (''cookies'',
              JArr [JObj [(''name'', JStr ''session''), (''value'', JStr ''abc''),
                          (''domain'', JStr ''example.com''), (''path'', JStr ''/''),
                          (''port'', JNull), (''secure'', JBool True),
                          (''expires'', JNum 1900000000)]]),
             (''proxy'', JNull)])]"
    by code_simp
  show ?thesis
    using r ok [unfolded tg cfg] by (intro conjI)
qed

section \<open>The challenge patterns\<close>

lemma match_here_many: "match_here q s \<Longrightarrow> match_here (Many k # q) s"
  by (cases s) simp_all

lemma match_here_insert_many:
  "match_here (p @ q) s \<Longrightarrow> match_here (p @ Many k # q) s"
proof (induction p arbitrary: s)
  case Nil
  then show ?case by (simp add: match_here_many)
next
  case (Cons i p)
  note outer = Cons.IH
  show ?case
  proof (cases i)
    case (One k')
    with Cons show ?thesis
      by (cases s) (simp_all split: if_splits)
  next
    case (Many k')
    have "match_here (Many k' # p @ q) s \<Longrightarrow> match_here (Many k' # p @ Many k # q) s"
    proof (induction s)
      case Nil
      then show ?case using outer by simp
    next
      case (Cons x xs)
      then show ?case using outer by (simp split: if_splits)
    qed
    with Cons.prems Many show ?thesis by simp
  qed
qed

lemma re_search_insert_many:
  "re_search (p @ q) s \<Longrightarrow> re_search (p @ Many k # q) s"
  by (induction s) (auto simp: match_here_insert_many split: if_splits)

lemma attention_required_tolerant:
  assumes "re_search (title_pattern ''attention required!'') t"
  shows "re_search re_attention_required t"
proof -
  have "title_pattern ''attention required!'' =
          (title_open @ [Many NotAngle] @ lit ''attention required'')
            @ (lit ''!'' @ [Many NotAngle] @ title_close)"
    by (simp add: title_pattern_def lit_def)
  moreover have "re_attention_required =
          (title_open @ [Many NotAngle] @ lit ''attention required'')
            @ Many Ws # (lit ''!'' @ [Many NotAngle] @ title_close)"
    by (simp add: re_attention_required_def)
  ultimately show ?thesis
    using assms re_search_insert_many by metis
qed

lemma solvable_block_markers:
  "solvable_block t \<longleftrightarrow>
     list_ex (\<lambda>(phrase, pat). contains phrase t \<and> re_search pat t) marker_patterns"
  by (simp add: solvable_block_def marker_patterns_def title_pattern_def re_just_a_moment_def
        re_attention_required_def re_captcha_challenge_def re_ddos_guard_def)

lemma marked_as_challenge_solvable:
  "marked_as_challenge t \<Longrightarrow> solvable_block t"
  using attention_required_tolerant [of t]
  by (auto simp: marked_as_challenge_def marker_phrases_def solvable_block_def title_pattern_def
        re_just_a_moment_def re_captcha_challenge_def re_ddos_guard_def)

text \<open>
  C3, as amended. A response with status 403, an HTML content type and a non-empty body
  that is not a hard block is classified as a challenge, and the solver is called in the
  attempt that received it, if and only if its lower-cased body contains one of the four
  marker phrases and a title element matching the pattern of that phrase. For
  \<open>just a moment...\<close>, \<open>captcha challenge\<close> and \<open>ddos-guard\<close> the pattern is the phrase
  itself inside the title, with whitespace allowed inside the tags and text free of angle
  brackets around the phrase; for \<open>attention required!\<close> it also allows whitespace
  between \<open>required\<close> and the exclamation mark. The pairs are tried one by one. A title
  that holds a phrase itself always counts.
\<close>

theorem challenge_iff_markers:
  assumes "run_method w url (send_headers hs c) (cookies c) = (Inr r, j, w1)"
      and "r_status_code r = 403"
      and "startswith (content_type r) ''text/html''"
      and "r_text r \<noteq> []"
      and "\<not> unsolvable_block (lower (r_text r))"
  shows "(classify r = CHALLENGE \<longleftrightarrow>
            list_ex (\<lambda>(phrase, pat). contains phrase (lower (r_text r))
                                      \<and> re_search pat (lower (r_text r))) marker_patterns)
         \<and> (list_ex is_solver
               (trace_of (request_loop (Suc n) solver_post run_method url solve_url hs (c, w)))
             \<longleftrightarrow> classify r = CHALLENGE)
         \<and> (marked_as_challenge (lower (r_text r)) \<longrightarrow> classify r = CHALLENGE)"
proof -
  have cls: "classify r = (if solvable_block (lower (r_text r)) then CHALLENGE else UNRELATED_403)"
    using assms(2-5) by (simp add: classify_def inspected_def)
  note step = request_loop_step [where run_method = run_method, OF assms(1)]
  have solver: "list_ex is_solver
      (trace_of (request_loop (Suc n) solver_post run_method url solve_url hs (c, w)))
      \<longleftrightarrow> classify r = CHALLENGE"
  proof (cases "solvable_block (lower (r_text r))")
    case False
    then show ?thesis
      using cls by (simp add: step Let_def)
  next
    case True
    obtain x c2 w2 out where
      "solve_challenge solver_post (solve_target url solve_url) (c\<lparr>cookies := j\<rparr>, w1) =
         (x, (c2, w2), [Solver (solver_url (c\<lparr>cookies := j\<rparr>) @ ''/get_cookies'')
                          (solver_request (solve_target url solve_url) (c\<lparr>cookies := j\<rparr>)) out])"
      by (rule solve_challenge_shape)
    then show ?thesis
      using cls True by (cases x) (simp_all add: step Let_def split: prod.splits)
  qed
  show ?thesis
    using cls solver solvable_block_markers [of "lower (r_text r)"]
      marked_as_challenge_solvable [of "lower (r_text r)"]
    by auto
qed

theorem challenge_iff_markers_witness:
  "r_status_code challenge_page = 403 \<and> startswith (content_type challenge_page) ''text/html'' \<and>
   \<not> unsolvable_block (lower (r_text challenge_page)) \<and>
   marked_as_challenge (lower (r_text challenge_page)) \<and>
   classify challenge_page = CHALLENGE \<and>
   list_ex is_solver
     (trace_of (request_loop (Suc 1) script_post script_run a_url None Map.empty
        (a_client, ([challenge_page, ok_page], [solved])))) \<and>
   classify forbidden_page = UNRELATED_403 \<and>
   \<not> list_ex is_solver
     (trace_of (request_loop (Suc 1) script_post script_run a_url None Map.empty
        (a_client, ([forbidden_page, ok_page], [solved]))))"
proof -
  have a1: "r_status_code challenge_page = 403" and a2: "r_text challenge_page \<noteq> []"
    and b1: "r_status_code forbidden_page = 403" and b2: "r_text forbidden_page \<noteq> []"
    by (simp_all add: challenge_page_def forbidden_page_def html_def)
  have a3: "startswith (content_type challenge_page) ''text/html''"
    and b3: "startswith (content_type forbidden_page) ''text/html''"
    by code_simp+
  have a4: "\<not> unsolvable_block (lower (r_text challenge_page))"
    and b4: "\<not> unsolvable_block (lower (r_text forbidden_page))"
    by code_simp+
  have a5: "marked_as_challenge (lower (r_text challenge_page))"
    by code_simp
  have b5: "classify forbidden_page = UNRELATED_403"
    by code_simp
  have h1: "script_run ([challenge_page, ok_page], [solved]) a_url
              (send_headers Map.empty a_client) (cookies a_client) =
            (Inr challenge_page, cookies a_client, ([ok_page], [solved]))"
    by (simp add: script_run_def)
  have h2: "script_run ([forbidden_page, ok_page], [solved]) a_url
              (send_headers Map.empty a_client) (cookies a_client) =
            (Inr forbidden_page, cookies a_client, ([ok_page], [solved]))"
    by (simp add: script_run_def)
  note t1 = challenge_iff_markers [where run_method = script_run and solver_post = script_post
      and solve_url = None and n = 1, OF h1 a1 a3 a2 a4]
  note t2 = challenge_iff_markers [where run_method = script_run and solver_post = script_post
      and solve_url = None and n = 1, OF h2 b1 b3 b2 b4]
  have c1: "classify challenge_page = CHALLENGE"
    using t1 [THEN conjunct2, THEN conjunct2] a5 by simp
  have s1: "list_ex is_solver
     (trace_of (request_loop (Suc 1) script_post script_run a_url None Map.empty
        (a_client, ([challenge_page, ok_page], [solved]))))"
    using t1 [THEN conjunct2, THEN conjunct1] c1 by simp
  have s2: "\<not> list_ex is_solver
     (trace_of (request_loop (Suc 1) script_post script_run a_url None Map.empty
        (a_client, ([forbidden_page, ok_page], [solved]))))"
    using t2 [THEN conjunct2, THEN conjunct1] b5 by simp
  show ?thesis
    using a1 a3 a4 a5 c1 s1 b5 s2 by (intro conjI)
qed

theorem challenge_iff_markers_counterexample:
  "r_status_code spaced_title_page = 403 \<and>
   startswith (content_type spaced_title_page) ''text/html'' \<and>
   r_text spaced_title_page \<noteq> [] \<and>
   \<not> unsolvable_block (lower (r_text spaced_title_page)) \<and>
   classify spaced_title_page = CHALLENGE \<and>
   list_ex is_solver
     (trace_of (request script_post script_run a_url None Map.empty
        (a_client, ([spaced_title_page, ok_page], [solved])))) \<and>
   \<not> marked_as_challenge (lower (r_text spaced_title_page))"
  by code_simp

end
